theory Spec2Isabelle
  imports Main "HOL-Library.Sublist"
begin

section \<open>Python values and effects of upload_to_hf.py\<close>

text \<open>
  The script is one linear procedure that talks to four collaborators: the process
  environment, the \<^verbatim>\<open>git\<close> executable, the Hugging Face client and the local file
  system. The model makes every effect explicit: a run returns the list of events it
  caused, in order, together with either the exception that ended it (\<open>Inl\<close>) or its
  return value (\<open>Inr\<close>). What the collaborators answer is a parameter of the run, the
  record \<open>world\<close> below.

  Strings are \<open>string\<close>; a character stands for the code point of the same number, so
  the model covers texts whose code points are below 256.
\<close>

subsection \<open>Exceptions\<close>

text \<open>
  An exception is its class and its textual representation (\<^verbatim>\<open>str(e)\<close>). The classes
  the script names are constructors of their own; \<open>OtherError\<close> carries the name of any
  other subclass of \<^verbatim>\<open>Exception\<close> (for example \<^verbatim>\<open>PermissionError\<close>, which
  \<^verbatim>\<open>subprocess.run\<close> raises for an executable that may not be run).
\<close>

datatype exn_class = CalledProcessError | FileNotFoundError | ValueError | OtherError string

datatype exn = Exn (class_of: exn_class) (str_of: string)

subsection \<open>Strings\<close>

text \<open>\<^verbatim>\<open>str.isspace\<close> on the code points below 256: U+0009 to U+000D, U+001C to U+001F,
  U+0020, U+0085 and U+00A0.\<close>

definition isspace :: "char \<Rightarrow> bool" where
  "isspace c = (c \<in> set [CHR 0x09, CHR 0x0A, CHR 0x0B, CHR 0x0C, CHR 0x0D,
                          CHR 0x1C, CHR 0x1D, CHR 0x1E, CHR 0x1F, CHR 0x20,
                          CHR 0x85, CHR 0xA0])"

text \<open>\<^verbatim>\<open>s.strip()\<close>: leading and trailing whitespace removed, the inside untouched.\<close>

definition strip :: "string \<Rightarrow> string" where
  "strip s = rev (dropWhile isspace (rev (dropWhile isspace s)))"

text \<open>\<^verbatim>\<open>needle in hay\<close> on strings: some suffix of \<open>hay\<close> starts with \<open>needle\<close>.\<close>

fun str_contains :: "string \<Rightarrow> string \<Rightarrow> bool" where
  "str_contains [] needle = (needle = [])"
| "str_contains (c # cs) needle = (prefix needle (c # cs) \<or> str_contains cs needle)"

text \<open>
  The next two functions are not part of the script. They state the specification's
  notion of the first line of an output, with which the script's \<^verbatim>\<open>strip()\<close> is
  compared: the first line is everything before the first line feed.
\<close>

definition first_line :: "string \<Rightarrow> string" where
  "first_line s = takeWhile (\<lambda>c. c \<noteq> CHR 0x0A) s"

text \<open>What follows the first line feed of a text (empty when there is none).\<close>

definition after_first_line :: "string \<Rightarrow> string" where
  "after_first_line s = drop 1 (dropWhile (\<lambda>c. c \<noteq> CHR 0x0A) s)"

subsection \<open>Paths\<close>

text \<open>
  \<^verbatim>\<open>os.path.relpath(path, start=".")\<close> on a POSIX system, for a relative \<open>path\<close>: both
  arguments are made absolute against the working directory and normalised, and the part
  of \<open>path\<close> below the working directory is returned. For a relative path that does not
  climb above the working directory this is the normalised path itself: empty and
  \<^verbatim>\<open>.\<close> components dropped, \<^verbatim>\<open>..\<close> cancelling the component before it, and
  \<^verbatim>\<open>.\<close> when nothing is left.
\<close>

fun split_path :: "string \<Rightarrow> string list" where
  "split_path [] = [[]]"
| "split_path (c # cs) =
     (if c = CHR ''/'' then [] # split_path cs
      else (case split_path cs of [] \<Rightarrow> [[c]] | x # xs \<Rightarrow> (c # x) # xs))"

fun normalize :: "string list \<Rightarrow> string list \<Rightarrow> string list" where
  "normalize acc [] = rev acc"
| "normalize acc (c # cs) =
     (if c = [] \<or> c = ''.'' then normalize acc cs
      else if c = ''..'' \<and> acc \<noteq> [] \<and> hd acc \<noteq> ''..'' then normalize (tl acc) cs
      else normalize (c # acc) cs)"

fun join_path :: "string list \<Rightarrow> string" where
  "join_path [] = []"
| "join_path [c] = c"
| "join_path (c # cs) = c @ ''/'' @ join_path cs"

definition relpath :: "string \<Rightarrow> string" where
  "relpath path =
     (let cs = normalize [] (split_path path) in if cs = [] then ''.'' else join_path cs)"

subsection \<open>The file system below the working directory\<close>

text \<open>
  A node is a regular file, a directory with its entries in listing order, or anything
  else (a socket, a FIFO, a dangling link). Symbolic links are not modelled.
\<close>

datatype fsnode = RegularFile | Directory "(string \<times> fsnode) list" | Special

text \<open>
  \<^verbatim>\<open>Path(p).glob("**/*")\<close>: the pattern \<^verbatim>\<open>**\<close> selects the directory \<open>p\<close> and every
  directory below it (parents first), and \<^verbatim>\<open>*\<close> then selects every entry of each of
  these, whatever its kind. The result pairs each entry's path with its node.
\<close>

fun walk_dirs :: "string \<Rightarrow> fsnode \<Rightarrow> (string \<times> (string \<times> fsnode) list) list" where
  "walk_dirs p (Directory es) =
     (p, es) # concat (map (\<lambda>(n, c). walk_dirs (p @ ''/'' @ n) c) es)"
| "walk_dirs p RegularFile = []"
| "walk_dirs p Special = []"

definition glob_all :: "string \<Rightarrow> fsnode \<Rightarrow> (string \<times> fsnode) list" where
  "glob_all p node =
     concat (map (\<lambda>(d, es). map (\<lambda>(n, c). (d @ ''/'' @ n, c)) es) (walk_dirs p node))"

subsection \<open>Events and collaborators\<close>

record upload_args =
  path_or_fileobj :: string
  path_in_repo :: string
  repo_id :: string
  repo_type :: string
  token :: string
  commit_message :: string

text \<open>
  \<open>Print\<close> is a line written to standard output, \<open>SubprocessRun\<close> a call of
  \<^verbatim>\<open>subprocess.run\<close> with its argument vector. The other three are the network calls:
  \<^verbatim>\<open>api.whoami(token)\<close>, \<^verbatim>\<open>create_repo(repo_id, repo_type, private, token)\<close> and
  \<^verbatim>\<open>api.upload_file(...)\<close>.
\<close>

datatype event =
    Print string
  | SubprocessRun "string list"
  | Whoami string
  | CreateRepo string string bool string
  | UploadFile upload_args

fun is_print :: "event \<Rightarrow> bool" where
  "is_print (Print _) = True"
| "is_print _ = False"

text \<open>
  The world of one run. \<open>environ\<close> is the process environment as \<^verbatim>\<open>os.getenv\<close> reads it
  after \<^verbatim>\<open>load_dotenv()\<close>; \<open>git_rev_parse\<close> is what
  \<^verbatim>\<open>subprocess.run(["git", "rev-parse", "--short", "HEAD"], check=True, ...)\<close> does: it
  raises, or returns with this standard output; \<open>results_node\<close> is the node at
  \<^verbatim>\<open>./results\<close>, if any; the three \<open>hub_\<close> fields answer the network calls, each as a
  function of the call's arguments (\<open>None\<close>: the call returns normally).
\<close>

record world =
  environ :: "string \<rightharpoonup> string"
  git_rev_parse :: "exn + string"
  hub_whoami :: "string \<Rightarrow> exn + (string \<rightharpoonup> string)"
  hub_create_repo :: "string \<Rightarrow> string \<Rightarrow> bool \<Rightarrow> string \<Rightarrow> exn option"
  results_node :: "fsnode option"
  hub_upload_file :: "upload_args \<Rightarrow> exn option"

type_synonym 'a run = "event list \<times> (exn + 'a)"

text \<open>Sequencing: the second step runs only when the first returned; events accumulate.\<close>

definition bind_run :: "'a run \<Rightarrow> ('a \<Rightarrow> 'b run) \<Rightarrow> 'b run" where
  "bind_run m f =
     (case m of
        (tr, Inl e) \<Rightarrow> (tr, Inl e)
      | (tr, Inr x) \<Rightarrow> (case f x of (tr', r) \<Rightarrow> (tr @ tr', r)))"

section \<open>The script\<close>

subsection \<open>get_current_git_commit (lines 8 to 25)\<close>

definition git_argv :: "string list" where
  "git_argv = [''git'', ''rev-parse'', ''--short'', ''HEAD'']"

fun get_current_git_commit :: "(exn + string) \<Rightarrow> string option run" where
  "get_current_git_commit (Inr stdout) = ([SubprocessRun git_argv], Inr (Some (strip stdout)))"
| "get_current_git_commit (Inl e) =
     (if class_of e = CalledProcessError then
        ([SubprocessRun git_argv, Print (''Error getting git commit ID: '' @ str_of e)], Inr None)
      else if class_of e = FileNotFoundError then
        ([SubprocessRun git_argv, Print ''Git command not found. Make sure git is installed.''],
         Inr None)
      else ([SubprocessRun git_argv], Inl e))"

subsection \<open>upload_to_huggingface (lines 27 to 112)\<close>

text \<open>Lines 42 to 52: the account name is asked of the service.\<close>

definition username_failure :: exn where
  "username_failure =
     Exn ValueError
       ''Could not retrieve username from API token. Please set HF_USERNAME in .env file.''"

definition lookup_username :: "world \<Rightarrow> string \<Rightarrow> string run" where
  "lookup_username w hf_token =
     (let announce = Print ''HF_USERNAME not found in .env file, retrieving from API token...'';
          caught = (\<lambda>e. ([announce, Whoami hf_token,
                           Print (''Error retrieving username from API: '' @ str_of e)],
                          Inl username_failure))
      in case hub_whoami w hf_token of
           Inl e \<Rightarrow> caught e
         | Inr user_info \<Rightarrow>
             (case user_info ''name'' of
                None \<Rightarrow> caught username_failure
              | Some hf_username \<Rightarrow>
                  if hf_username = [] then caught username_failure
                  else ([announce, Whoami hf_token, Print (''Username retrieved: '' @ hf_username)],
                        Inr hf_username)))"

text \<open>Lines 40 and 41: \<^verbatim>\<open>not hf_username\<close> holds for \<^verbatim>\<open>None\<close> and for the empty string.\<close>

definition resolve_username :: "world \<Rightarrow> string \<Rightarrow> string run" where
  "resolve_username w hf_token =
     (case environ w ''HF_USERNAME'' of
        None \<Rightarrow> lookup_username w hf_token
      | Some hf_username \<Rightarrow>
          if hf_username = [] then lookup_username w hf_token else ([], Inr hf_username))"

text \<open>Lines 66 to 78: the repository is created, or found to exist.\<close>

definition ensure_repo :: "world \<Rightarrow> string \<Rightarrow> string \<Rightarrow> unit run" where
  "ensure_repo w rid hf_token =
     (case hub_create_repo w rid ''dataset'' False hf_token of
        None \<Rightarrow>
          ([Print (''Checking/creating repository: '' @ rid),
            CreateRepo rid ''dataset'' False hf_token,
            Print ''Repository created successfully''], Inr ())
      | Some e \<Rightarrow>
          if str_contains (str_of e) ''You already created this'' \<or> str_contains (str_of e) ''409''
          then ([Print (''Checking/creating repository: '' @ rid),
                 CreateRepo rid ''dataset'' False hf_token,
                 Print ''Repository already exists, continuing with upload...''], Inr ())
          else ([Print (''Checking/creating repository: '' @ rid),
                 CreateRepo rid ''dataset'' False hf_token,
                 Print (''Error while creating repository: '' @ str_of e)], Inl e))"

text \<open>Lines 89 to 92: the regular files below the results directory, as strings.\<close>

definition files_to_upload :: "fsnode \<Rightarrow> string list" where
  "files_to_upload node = map fst (filter (\<lambda>(p, c). c = RegularFile) (glob_all ''results'' node))"

text \<open>Lines 95 to 108: one upload per file; the first exception ends the loop.\<close>

definition upload_call :: "string \<Rightarrow> string \<Rightarrow> string \<Rightarrow> string \<Rightarrow> upload_args" where
  "upload_call rid hf_token commit_prefix file_path =
     \<lparr>path_or_fileobj = file_path,
      path_in_repo = relpath file_path,
      repo_id = rid,
      repo_type = ''dataset'',
      token = hf_token,
      commit_message = commit_prefix @ '' - '' @ relpath file_path\<rparr>"

fun upload_loop :: "world \<Rightarrow> string \<Rightarrow> string \<Rightarrow> string \<Rightarrow> string list \<Rightarrow> unit run" where
  "upload_loop w rid hf_token commit_prefix [] = ([], Inr ())"
| "upload_loop w rid hf_token commit_prefix (file_path # rest) =
     (let call = upload_call rid hf_token commit_prefix file_path;
          here = [Print (''Uploading '' @ relpath file_path), UploadFile call]
      in case hub_upload_file w call of
           Some e \<Rightarrow> (here, Inl e)
         | None \<Rightarrow>
             (case upload_loop w rid hf_token commit_prefix rest of
                (tr, r) \<Rightarrow> (here @ tr, r)))"

text \<open>Line 63: the run-wide prefix of the commit messages.\<close>

definition commit_prefix_of :: "string option \<Rightarrow> string" where
  "commit_prefix_of commit_id =
     (case commit_id of
        None \<Rightarrow> ''update''
      | Some c \<Rightarrow> if c = [] then ''update'' else ''Update from github (commit id) '' @ c)"

text \<open>Lines 110 to 112: the closing summary.\<close>

definition summary :: "string \<Rightarrow> string option \<Rightarrow> event list" where
  "summary rid commit_id =
     Print (''Upload complete! Repository available at: https://huggingface.co/datasets/'' @ rid)
     # (case commit_id of
          None \<Rightarrow> []
        | Some c \<Rightarrow>
            if c = [] then []
            else [Print (''Files were uploaded with commit messages including git commit ID: ''
                         @ [CHR 0x27] @ c @ [CHR 0x27])])"

text \<open>Lines 81 to 112: everything after the repository exists.\<close>

definition upload_results :: "world \<Rightarrow> string \<Rightarrow> string \<Rightarrow> string option \<Rightarrow> unit run" where
  "upload_results w rid hf_token commit_id =
     (case results_node w of
        Some (Directory es) \<Rightarrow>
          bind_run ([Print (''Uploading files from results to '' @ rid)], Inr ()) (\<lambda>_.
          bind_run (upload_loop w rid hf_token (commit_prefix_of commit_id)
                      (files_to_upload (Directory es))) (\<lambda>_.
          (summary rid commit_id, Inr ())))
      | _ \<Rightarrow> ([], Inl (Exn ValueError ''Results directory not found at results'')))"

text \<open>Line 55: \<^verbatim>\<open>os.getenv("HF_REPO_NAME", "longbench-results")\<close>.\<close>

definition repo_name_of :: "world \<Rightarrow> string" where
  "repo_name_of w =
     (case environ w ''HF_REPO_NAME'' of None \<Rightarrow> ''longbench-results'' | Some n \<Rightarrow> n)"

text \<open>Lines 37 to 112: the run once the credential is known to be present.\<close>

definition run_with_token :: "world \<Rightarrow> string \<Rightarrow> unit run" where
  "run_with_token w hf_token =
     bind_run (resolve_username w hf_token) (\<lambda>hf_username.
     let rid = hf_username @ ''/'' @ repo_name_of w in
     bind_run (get_current_git_commit (git_rev_parse w)) (\<lambda>commit_id.
     bind_run (ensure_repo w rid hf_token) (\<lambda>_.
     upload_results w rid hf_token commit_id)))"

text \<open>Lines 32 to 34: \<^verbatim>\<open>not hf_token\<close> holds for \<^verbatim>\<open>None\<close> and for the empty string.\<close>

definition upload_to_huggingface :: "world \<Rightarrow> unit run" where
  "upload_to_huggingface w =
     (case environ w ''HF_TOKEN'' of
        None \<Rightarrow> ([], Inl (Exn ValueError ''HF_TOKEN not found in .env file''))
      | Some hf_token \<Rightarrow>
          if hf_token = [] then ([], Inl (Exn ValueError ''HF_TOKEN not found in .env file''))
          else run_with_token w hf_token)"

subsection \<open>A concrete world\<close>

text \<open>
  A results directory holding exactly \<^verbatim>\<open>a.txt\<close> and \<^verbatim>\<open>sub/b.txt\<close>, and a world in
  which every collaborator answers: the credential and the account are configured, git
  prints one line, the repository does not exist yet and every upload succeeds.
\<close>

definition two_files :: fsnode where
  "two_files =
     Directory [(''a.txt'', RegularFile), (''sub'', Directory [(''b.txt'', RegularFile)])]"

definition example_world :: world where
  "example_world =
     \<lparr>environ = [''HF_TOKEN'' \<mapsto> ''hf_secret'', ''HF_USERNAME'' \<mapsto> ''alice''],
      git_rev_parse = Inr (''abc1234'' @ [CHR 0x0A]),
      hub_whoami = (\<lambda>_. Inr [''name'' \<mapsto> ''bob'']),
      hub_create_repo = (\<lambda>_ _ _ _. None),
      results_node = Some two_files,
      hub_upload_file = (\<lambda>_. None)\<rparr>"

text \<open>
  Variations of it: the repository exists already (the service answers with a conflict),
  the creation is refused, the upload of \<^verbatim>\<open>results/a.txt\<close> fails, and git is missing.
\<close>

definition conflict_error :: exn where
  "conflict_error =
     Exn (OtherError ''HfHubHTTPError'')
       ''409 Client Error: Conflict for url: https://huggingface.co/api/repos/create''"

definition denied_error :: exn where
  "denied_error =
     Exn (OtherError ''HfHubHTTPError'')
       ''401 Client Error: Unauthorized for url: https://huggingface.co/api/repos/create''"

definition server_error :: exn where
  "server_error = Exn (OtherError ''HfHubHTTPError'') ''500 Server Error''"

definition conflict_world :: world where
  "conflict_world = example_world\<lparr>hub_create_repo := (\<lambda>_ _ _ _. Some conflict_error)\<rparr>"

definition denied_world :: world where
  "denied_world = example_world\<lparr>hub_create_repo := (\<lambda>_ _ _ _. Some denied_error)\<rparr>"

definition failing_world :: world where
  "failing_world =
     example_world\<lparr>hub_upload_file :=
       (\<lambda>a. if path_in_repo a = ''results/a.txt'' then Some server_error else None)\<rparr>"

definition no_git_world :: world where
  "no_git_world =
     example_world\<lparr>git_rev_parse :=
       Inl (Exn FileNotFoundError ''[Errno 2] No such file or directory'')\<rparr>"

text \<open>The upload calls of a trace, in order (an observation on traces, not part of the script).\<close>

fun uploads_of :: "event list \<Rightarrow> upload_args list" where
  "uploads_of [] = []"
| "uploads_of (UploadFile a # evs) = a # uploads_of evs"
| "uploads_of (_ # evs) = uploads_of evs"

section \<open>Properties\<close>

subsection \<open>Auxiliary facts\<close>

lemma upload_loop_cong_world:
  "hub_upload_file w = hub_upload_file w' \<Longrightarrow>
   upload_loop w rid tok p fs = upload_loop w' rid tok p fs"
  by (induction fs) (auto simp: Let_def split: option.splits)

lemma str_contains_sublist: "str_contains hay needle \<longleftrightarrow> sublist needle hay"
  by (induction hay) (auto simp: sublist_Cons_right)

lemma fst_bind_run_subset:
  "ev \<in> set (fst (bind_run m f)) \<Longrightarrow>
   ev \<in> set (fst m) \<or> (\<exists>x. snd m = Inr x \<and> ev \<in> set (fst (f x)))"
  by (auto simp: bind_run_def split: prod.splits sum.splits)

lemma lookup_username_events:
  "ev \<in> set (fst (lookup_username w tok)) \<Longrightarrow> is_print ev \<or> ev = Whoami tok"
  by (auto simp: lookup_username_def Let_def split: sum.splits option.splits if_splits)

lemma resolve_username_events:
  "ev \<in> set (fst (resolve_username w tok)) \<Longrightarrow> is_print ev \<or> ev = Whoami tok"
  by (auto simp: resolve_username_def dest: lookup_username_events split: option.splits if_splits)

lemma git_commit_events:
  "ev \<in> set (fst (get_current_git_commit g)) \<Longrightarrow> is_print ev \<or> ev = SubprocessRun git_argv"
  by (cases g) (auto split: if_splits)

lemma ensure_repo_events:
  "ev \<in> set (fst (ensure_repo w rid tok)) \<Longrightarrow>
   is_print ev \<or> ev = CreateRepo rid ''dataset'' False tok"
  by (auto simp: ensure_repo_def split: option.splits if_splits)

lemma upload_loop_events:
  "ev \<in> set (fst (upload_loop w rid tok p fs)) \<Longrightarrow>
   is_print ev \<or> (\<exists>f \<in> set fs. ev = UploadFile (upload_call rid tok p f))"
  by (induction fs arbitrary: ev) (auto simp: Let_def split: option.splits prod.splits)

lemma summary_events: "ev \<in> set (summary rid cid) \<Longrightarrow> is_print ev"
  by (auto simp: summary_def split: option.splits if_splits)

lemma upload_results_events:
  assumes "ev \<in> set (fst (upload_results w rid tok cid))"
  shows "is_print ev \<or>
   (\<exists>es. results_node w = Some (Directory es) \<and>
     (\<exists>f \<in> set (files_to_upload (Directory es)).
        ev = UploadFile (upload_call rid tok (commit_prefix_of cid) f)))"
proof (cases "results_node w")
  case None
  with assms show ?thesis by (simp add: upload_results_def)
next
  case (Some node)
  show ?thesis
  proof (cases node)
    case (Directory es)
    obtain tr r where loop:
      "upload_loop w rid tok (commit_prefix_of cid) (files_to_upload (Directory es)) = (tr, r)"
      by (cases "upload_loop w rid tok (commit_prefix_of cid) (files_to_upload (Directory es))")
    from assms Some Directory loop
    have "is_print ev \<or> ev \<in> set tr \<or> ev \<in> set (summary rid cid)"
      by (auto simp: upload_results_def bind_run_def split: sum.splits)
    moreover have "ev \<in> set tr \<Longrightarrow> is_print ev \<or>
      (\<exists>f \<in> set (files_to_upload (Directory es)).
         ev = UploadFile (upload_call rid tok (commit_prefix_of cid) f))"
      using upload_loop_events [of ev w rid tok "commit_prefix_of cid" "files_to_upload (Directory es)"]
        loop by simp
    ultimately show ?thesis
      using Some Directory summary_events by blast
  qed (use assms Some in \<open>simp_all add: upload_results_def\<close>)
qed

lemma lookup_username_environ:
  "lookup_username (w\<lparr>environ := e\<rparr>) tok = lookup_username w tok"
  by (simp add: lookup_username_def)

lemma ensure_repo_environ:
  "ensure_repo (w\<lparr>environ := e\<rparr>) rid tok = ensure_repo w rid tok"
  by (simp add: ensure_repo_def)

lemma upload_results_environ:
  "upload_results (w\<lparr>environ := e\<rparr>) rid tok cid = upload_results w rid tok cid"
proof -
  have "upload_loop (w\<lparr>environ := e\<rparr>) = upload_loop w"
    by (intro ext upload_loop_cong_world) simp
  then show ?thesis
    by (simp add: upload_results_def split: option.splits fsnode.splits)
qed

lemma run_with_token_cong:
  assumes "resolve_username w tok = resolve_username w' tok"
    and "repo_name_of w = repo_name_of w'"
    and "git_rev_parse w = git_rev_parse w'"
    and "\<And>rid. ensure_repo w rid tok = ensure_repo w' rid tok"
    and "\<And>rid cid. upload_results w rid tok cid = upload_results w' rid tok cid"
  shows "run_with_token w tok = run_with_token w' tok"
  using assms by (simp add: run_with_token_def)

lemma strip_append_space:
  assumes "\<forall>c \<in> set ws. isspace c"
  shows "strip (l @ ws) = strip l"
proof (cases "\<forall>c \<in> set l. isspace c")
  case True
  then have l: "dropWhile isspace l = []" by (simp add: dropWhile_eq_Nil_conv)
  from True assms have lws: "dropWhile isspace (l @ ws) = []"
    by (auto simp: dropWhile_eq_Nil_conv)
  show ?thesis by (simp only: strip_def l lws)
next
  case False
  then have "dropWhile isspace (l @ ws) = dropWhile isspace l @ ws"
    by (auto simp: dropWhile_append)
  moreover have "dropWhile isspace (rev ws @ xs) = dropWhile isspace xs" for xs
    using assms by (simp add: dropWhile_append)
  ultimately show ?thesis by (simp add: strip_def)
qed

lemma split_first_line:
  "s = first_line s \<or> s = first_line s @ CHR 0x0A # after_first_line s"
proof (cases "dropWhile (\<lambda>c. c \<noteq> CHR 0x0A) s")
  case Nil
  then have "\<forall>c \<in> set s. c \<noteq> CHR 0x0A"
    by (simp add: dropWhile_eq_Nil_conv)
  then have "first_line s = s"
    by (simp add: first_line_def)
  then show ?thesis by simp
next
  case (Cons c cs)
  have "\<not> (hd (dropWhile (\<lambda>c. c \<noteq> CHR 0x0A) s) \<noteq> CHR 0x0A)"
    by (rule hd_dropWhile) (simp add: Cons)
  with Cons have "c = CHR 0x0A" by simp
  moreover have "s = takeWhile (\<lambda>c. c \<noteq> CHR 0x0A) s @ dropWhile (\<lambda>c. c \<noteq> CHR 0x0A) s"
    by simp
  ultimately have "s = first_line s @ CHR 0x0A # after_first_line s"
    unfolding first_line_def after_first_line_def Cons by simp
  then show ?thesis ..
qed

subsection \<open>The phases of a run\<close>

lemma run_fails_in_resolve:
  "resolve_username w tok = (t1, Inl e) \<Longrightarrow> run_with_token w tok = (t1, Inl e)"
  by (simp add: run_with_token_def bind_run_def)

lemma run_fails_in_git:
  "resolve_username w tok = (t1, Inr u) \<Longrightarrow>
   get_current_git_commit (git_rev_parse w) = (t2, Inl e) \<Longrightarrow>
   run_with_token w tok = (t1 @ t2, Inl e)"
  by (simp add: run_with_token_def bind_run_def Let_def)

lemma run_fails_in_create:
  "resolve_username w tok = (t1, Inr u) \<Longrightarrow>
   get_current_git_commit (git_rev_parse w) = (t2, Inr cid) \<Longrightarrow>
   ensure_repo w (u @ ''/'' @ repo_name_of w) tok = (t3, Inl e) \<Longrightarrow>
   run_with_token w tok = (t1 @ t2 @ t3, Inl e)"
  by (simp add: run_with_token_def bind_run_def Let_def)

lemma run_reaches_upload:
  "resolve_username w tok = (t1, Inr u) \<Longrightarrow>
   get_current_git_commit (git_rev_parse w) = (t2, Inr cid) \<Longrightarrow>
   ensure_repo w (u @ ''/'' @ repo_name_of w) tok = (t3, Inr x) \<Longrightarrow>
   upload_results w (u @ ''/'' @ repo_name_of w) tok cid = (t4, r) \<Longrightarrow>
   run_with_token w tok = (t1 @ t2 @ t3 @ t4, r)"
  by (simp add: run_with_token_def bind_run_def Let_def)

lemma upload_results_create:
  "upload_results (w\<lparr>hub_create_repo := c\<rparr>) rid tok cid = upload_results w rid tok cid"
proof -
  have "upload_loop (w\<lparr>hub_create_repo := c\<rparr>) = upload_loop w"
    by (intro ext upload_loop_cong_world) simp
  then show ?thesis
    by (simp add: upload_results_def split: option.splits fsnode.splits)
qed


lemma uploads_of_append: "uploads_of (xs @ ys) = uploads_of xs @ uploads_of ys"
  by (induction xs rule: uploads_of.induct) simp_all

lemma uploads_of_none: "\<forall>a. UploadFile a \<notin> set xs \<Longrightarrow> uploads_of xs = []"
  by (induction xs rule: uploads_of.induct) auto

lemma resolve_username_uploads: "uploads_of (fst (resolve_username w tok)) = []"
  by (rule uploads_of_none) (auto dest: resolve_username_events)

lemma git_commit_uploads: "uploads_of (fst (get_current_git_commit g)) = []"
  by (rule uploads_of_none) (auto dest: git_commit_events)

lemma ensure_repo_uploads: "uploads_of (fst (ensure_repo w rid tok)) = []"
  by (rule uploads_of_none) (auto dest: ensure_repo_events)

lemma summary_uploads: "uploads_of (summary rid cid) = []"
  by (rule uploads_of_none) (auto dest: summary_events)

lemma set_uploads_of: "a \<in> set (uploads_of xs) \<longleftrightarrow> UploadFile a \<in> set xs"
  by (induction xs rule: uploads_of.induct) auto

lemma upload_loop_completes:
  assumes "\<forall>f \<in> set fs. hub_upload_file w (upload_call rid tok p f) = None"
  shows "snd (upload_loop w rid tok p fs) = Inr ()
         \<and> uploads_of (fst (upload_loop w rid tok p fs)) = map (upload_call rid tok p) fs"
  using assms by (induction fs) (auto simp: Let_def split: prod.splits)

lemma upload_loop_uploads_prefix:
  "prefix (uploads_of (fst (upload_loop w rid tok p fs))) (map (upload_call rid tok p) fs)"
  by (induction fs) (auto simp: Let_def split: prod.splits option.splits)

lemma upload_loop_ok_uploads:
  "snd (upload_loop w rid tok p fs) = Inr u \<Longrightarrow>
   uploads_of (fst (upload_loop w rid tok p fs)) = map (upload_call rid tok p) fs"
  by (induction fs) (auto simp: Let_def split: prod.splits option.splits)

lemma upload_results_uploads:
  assumes "results_node w = Some (Directory es)"
  shows "prefix (uploads_of (fst (upload_results w rid tok cid)))
                (map (upload_call rid tok (commit_prefix_of cid)) (files_to_upload (Directory es)))"
    and "snd (upload_results w rid tok cid) = Inr u \<Longrightarrow>
         uploads_of (fst (upload_results w rid tok cid)) =
           map (upload_call rid tok (commit_prefix_of cid)) (files_to_upload (Directory es))"
    and "\<forall>f \<in> set (files_to_upload (Directory es)).
           hub_upload_file w (upload_call rid tok (commit_prefix_of cid) f) = None \<Longrightarrow>
         snd (upload_results w rid tok cid) = Inr ()"
proof -
  let ?fs = "files_to_upload (Directory es)"
  let ?p = "commit_prefix_of cid"
  obtain lt lr where loop: "upload_loop w rid tok ?p ?fs = (lt, lr)"
    by (cases "upload_loop w rid tok ?p ?fs")
  note s = summary_uploads [of rid cid]
  from assms loop s have ups: "uploads_of (fst (upload_results w rid tok cid)) = uploads_of lt"
    by (cases lr) (simp_all add: upload_results_def bind_run_def uploads_of_append)
  from assms loop have res: "snd (upload_results w rid tok cid) = lr"
    by (cases lr) (simp_all add: upload_results_def bind_run_def)
  show "prefix (uploads_of (fst (upload_results w rid tok cid))) (map (upload_call rid tok ?p) ?fs)"
    using upload_loop_uploads_prefix [of w rid tok ?p ?fs] loop ups by simp
  show "uploads_of (fst (upload_results w rid tok cid)) = map (upload_call rid tok ?p) ?fs"
    if "snd (upload_results w rid tok cid) = Inr u"
    using upload_loop_ok_uploads [of w rid tok ?p ?fs u] loop ups res that by simp
  show "snd (upload_results w rid tok cid) = Inr ()"
    if "\<forall>f \<in> set ?fs. hub_upload_file w (upload_call rid tok ?p f) = None"
    using upload_loop_completes [OF that] loop res by simp
qed

lemma run_with_token_uploads:
  assumes "resolve_username w tok = (t1, Inr u)"
    and "get_current_git_commit (git_rev_parse w) = (t2, Inr cid)"
    and "ensure_repo w (u @ ''/'' @ repo_name_of w) tok = (t3, Inr x)"
  shows "uploads_of (fst (run_with_token w tok)) =
           uploads_of (fst (upload_results w (u @ ''/'' @ repo_name_of w) tok cid))"
    and "snd (run_with_token w tok) = snd (upload_results w (u @ ''/'' @ repo_name_of w) tok cid)"
proof -
  let ?rid = "u @ ''/'' @ repo_name_of w"
  obtain t4 r4 where up: "upload_results w ?rid tok cid = (t4, r4)"
    by (cases "upload_results w ?rid tok cid")
  note run = run_reaches_upload [OF assms up]
  have "uploads_of t1 = []"
    using resolve_username_uploads [of w tok] assms(1) by simp
  moreover have "uploads_of t2 = []"
    using git_commit_uploads [of "git_rev_parse w"] assms(2) by simp
  moreover have "uploads_of t3 = []"
    using ensure_repo_uploads [of w ?rid tok] assms(3) by simp
  ultimately show "uploads_of (fst (run_with_token w tok)) = uploads_of (fst (upload_results w ?rid tok cid))"
    using run up by (simp add: uploads_of_append)
  show "snd (run_with_token w tok) = snd (upload_results w ?rid tok cid)"
    using run up by simp
qed

lemma run_with_token_no_uploads:
  assumes "snd (resolve_username w tok) = Inl e1
           \<or> snd (get_current_git_commit (git_rev_parse w)) = Inl e2
           \<or> (\<exists>u. snd (resolve_username w tok) = Inr u \<and>
                  snd (ensure_repo w (u @ ''/'' @ repo_name_of w) tok) = Inl e3)"
  shows "uploads_of (fst (run_with_token w tok)) = [] \<and> (\<exists>e. snd (run_with_token w tok) = Inl e)"
proof -
  obtain t1 r1 where u: "resolve_username w tok = (t1, r1)" by (cases "resolve_username w tok")
  obtain t2 r2 where g: "get_current_git_commit (git_rev_parse w) = (t2, r2)"
    by (cases "get_current_git_commit (git_rev_parse w)")
  have n1: "uploads_of t1 = []"
    using resolve_username_uploads [of w tok] u by simp
  have n2: "uploads_of t2 = []"
    using git_commit_uploads [of "git_rev_parse w"] g by simp
  show ?thesis
  proof (cases r1)
    case (Inl e)
    with u n1 run_fails_in_resolve [of w tok t1 e] show ?thesis by simp
  next
    case user: (Inr hf_username)
    show ?thesis
    proof (cases r2)
      case (Inl e)
      with u g user n1 n2 run_fails_in_git [of w tok t1 hf_username t2 e] show ?thesis
        by (simp add: uploads_of_append)
    next
      case cid: (Inr commit_id)
      let ?rid = "hf_username @ ''/'' @ repo_name_of w"
      from assms u g user cid have "snd (ensure_repo w ?rid tok) = Inl e3" by auto
      then obtain t3 where c: "ensure_repo w ?rid tok = (t3, Inl e3)"
        by (cases "ensure_repo w ?rid tok") auto
      have "uploads_of t3 = []"
        using ensure_repo_uploads [of w ?rid tok] c by simp
      with u g user cid c n1 n2 run_fails_in_create [of w tok t1 hf_username t2 commit_id t3 e3]
      show ?thesis by (simp add: uploads_of_append)
    qed
  qed
qed

subsection \<open>Runs of the concrete worlds\<close>

lemma files_two_files: "files_to_upload two_files = [''results/a.txt'', ''results/sub/b.txt'']"
  by (simp add: two_files_def files_to_upload_def glob_all_def)

lemma relpath_a: "relpath ''results/a.txt'' = ''results/a.txt''"
  by (simp add: relpath_def)

lemma relpath_b: "relpath ''results/sub/b.txt'' = ''results/sub/b.txt''"
  by (simp add: relpath_def)

lemmas run_simps =
  upload_to_huggingface_def run_with_token_def resolve_username_def lookup_username_def
  repo_name_of_def ensure_repo_def upload_results_def bind_run_def upload_call_def
  commit_prefix_of_def summary_def git_argv_def two_files_def files_to_upload_def glob_all_def
  relpath_def strip_def isspace_def Let_def

lemma example_run:
  "upload_to_huggingface example_world =
     ([SubprocessRun [''git'', ''rev-parse'', ''--short'', ''HEAD''],
       Print ''Checking/creating repository: alice/longbench-results'',
       CreateRepo ''alice/longbench-results'' ''dataset'' False ''hf_secret'',
       Print ''Repository created successfully'',
       Print ''Uploading files from results to alice/longbench-results'',
       Print ''Uploading results/a.txt'',
       UploadFile \<lparr>path_or_fileobj = ''results/a.txt'', path_in_repo = ''results/a.txt'',
                   repo_id = ''alice/longbench-results'', repo_type = ''dataset'',
                   token = ''hf_secret'',
                   commit_message = ''Update from github (commit id) abc1234 - results/a.txt''\<rparr>,
       Print ''Uploading results/sub/b.txt'',
       UploadFile \<lparr>path_or_fileobj = ''results/sub/b.txt'', path_in_repo = ''results/sub/b.txt'',
                   repo_id = ''alice/longbench-results'', repo_type = ''dataset'',
                   token = ''hf_secret'',
                   commit_message = ''Update from github (commit id) abc1234 - results/sub/b.txt''\<rparr>,
       Print ''Upload complete! Repository available at: https://huggingface.co/datasets/alice/longbench-results'',
       Print (''Files were uploaded with commit messages including git commit ID: ''
              @ [CHR 0x27] @ ''abc1234'' @ [CHR 0x27])],
      Inr ())"
  by (simp add: example_world_def run_simps)

lemma failing_run:
  "upload_to_huggingface failing_world =
     ([SubprocessRun [''git'', ''rev-parse'', ''--short'', ''HEAD''],
       Print ''Checking/creating repository: alice/longbench-results'',
       CreateRepo ''alice/longbench-results'' ''dataset'' False ''hf_secret'',
       Print ''Repository created successfully'',
       Print ''Uploading files from results to alice/longbench-results'',
       Print ''Uploading results/a.txt'',
       UploadFile \<lparr>path_or_fileobj = ''results/a.txt'', path_in_repo = ''results/a.txt'',
                   repo_id = ''alice/longbench-results'', repo_type = ''dataset'',
                   token = ''hf_secret'',
                   commit_message = ''Update from github (commit id) abc1234 - results/a.txt''\<rparr>],
      Inl server_error)"
  by (simp add: failing_world_def example_world_def run_simps)

lemma conflict_run:
  "upload_to_huggingface conflict_world =
     ([SubprocessRun [''git'', ''rev-parse'', ''--short'', ''HEAD''],
       Print ''Checking/creating repository: alice/longbench-results'',
       CreateRepo ''alice/longbench-results'' ''dataset'' False ''hf_secret'',
       Print ''Repository already exists, continuing with upload...'',
       Print ''Uploading files from results to alice/longbench-results'',
       Print ''Uploading results/a.txt'',
       UploadFile \<lparr>path_or_fileobj = ''results/a.txt'', path_in_repo = ''results/a.txt'',
                   repo_id = ''alice/longbench-results'', repo_type = ''dataset'',
                   token = ''hf_secret'',
                   commit_message = ''Update from github (commit id) abc1234 - results/a.txt''\<rparr>,
       Print ''Uploading results/sub/b.txt'',
       UploadFile \<lparr>path_or_fileobj = ''results/sub/b.txt'', path_in_repo = ''results/sub/b.txt'',
                   repo_id = ''alice/longbench-results'', repo_type = ''dataset'',
                   token = ''hf_secret'',
                   commit_message = ''Update from github (commit id) abc1234 - results/sub/b.txt''\<rparr>,
       Print ''Upload complete! Repository available at: https://huggingface.co/datasets/alice/longbench-results'',
       Print (''Files were uploaded with commit messages including git commit ID: ''
              @ [CHR 0x27] @ ''abc1234'' @ [CHR 0x27])],
      Inr ())"
  by (simp add: conflict_world_def conflict_error_def example_world_def run_simps)

lemma denied_run:
  "upload_to_huggingface denied_world =
     ([SubprocessRun [''git'', ''rev-parse'', ''--short'', ''HEAD''],
       Print ''Checking/creating repository: alice/longbench-results'',
       CreateRepo ''alice/longbench-results'' ''dataset'' False ''hf_secret'',
       Print ''Error while creating repository: 401 Client Error: Unauthorized for url: https://huggingface.co/api/repos/create''],
      Inl denied_error)"
  by (simp add: denied_world_def denied_error_def example_world_def run_simps)

lemma no_git_run:
  "upload_to_huggingface no_git_world =
     ([SubprocessRun [''git'', ''rev-parse'', ''--short'', ''HEAD''],
       Print ''Git command not found. Make sure git is installed.'',
       Print ''Checking/creating repository: alice/longbench-results'',
       CreateRepo ''alice/longbench-results'' ''dataset'' False ''hf_secret'',
       Print ''Repository created successfully'',
       Print ''Uploading files from results to alice/longbench-results'',
       Print ''Uploading results/a.txt'',
       UploadFile \<lparr>path_or_fileobj = ''results/a.txt'', path_in_repo = ''results/a.txt'',
                   repo_id = ''alice/longbench-results'', repo_type = ''dataset'',
                   token = ''hf_secret'',
                   commit_message = ''update - results/a.txt''\<rparr>,
       Print ''Uploading results/sub/b.txt'',
       UploadFile \<lparr>path_or_fileobj = ''results/sub/b.txt'', path_in_repo = ''results/sub/b.txt'',
                   repo_id = ''alice/longbench-results'', repo_type = ''dataset'',
                   token = ''hf_secret'',
                   commit_message = ''update - results/sub/b.txt''\<rparr>,
       Print ''Upload complete! Repository available at: https://huggingface.co/datasets/alice/longbench-results''],
      Inr ())"
  by (simp add: no_git_world_def example_world_def run_simps)

subsection \<open>The credential\<close>

text \<open>
  C2. When the credential \<^verbatim>\<open>HF_TOKEN\<close> is absent from the environment, the run ends
  with a \<^verbatim>\<open>ValueError\<close> and has caused no event at all: neither the identity lookup,
  nor the creation of the repository, nor an upload has been attempted.
\<close>

theorem missing_token_aborts_before_network:
  assumes "environ w ''HF_TOKEN'' = None"
  shows "upload_to_huggingface w = ([], Inl (Exn ValueError ''HF_TOKEN not found in .env file''))"
  using assms by (simp add: upload_to_huggingface_def)

theorem missing_token_aborts_before_network_witness:
  "environ (example_world\<lparr>environ := [''HF_USERNAME'' \<mapsto> ''alice'']\<rparr>) ''HF_TOKEN'' = None
   \<and> upload_to_huggingface (example_world\<lparr>environ := [''HF_USERNAME'' \<mapsto> ''alice'']\<rparr>)
       = ([], Inl (Exn ValueError ''HF_TOKEN not found in .env file''))"
  using missing_token_aborts_before_network
          [of "example_world\<lparr>environ := [''HF_USERNAME'' \<mapsto> ''alice'']\<rparr>"]
  by simp

text \<open>
  C9. Setting \<^verbatim>\<open>HF_TOKEN\<close> or \<^verbatim>\<open>HF_USERNAME\<close> to the empty string gives exactly the
  run that leaving the variable unset gives. An empty \<^verbatim>\<open>HF_TOKEN\<close> ends the run with the
  \<^verbatim>\<open>ValueError\<close> before any event; with a credential present, an empty
  \<^verbatim>\<open>HF_USERNAME\<close> makes the run call \<^verbatim>\<open>whoami\<close>.
\<close>

theorem empty_setting_is_unset:
  "upload_to_huggingface (w\<lparr>environ := (environ w)(''HF_TOKEN'' \<mapsto> [])\<rparr>) =
     upload_to_huggingface (w\<lparr>environ := (environ w)(''HF_TOKEN'' := None)\<rparr>)
   \<and> upload_to_huggingface (w\<lparr>environ := (environ w)(''HF_TOKEN'' \<mapsto> [])\<rparr>) =
     ([], Inl (Exn ValueError ''HF_TOKEN not found in .env file''))
   \<and> upload_to_huggingface (w\<lparr>environ := (environ w)(''HF_USERNAME'' \<mapsto> [])\<rparr>) =
     upload_to_huggingface (w\<lparr>environ := (environ w)(''HF_USERNAME'' := None)\<rparr>)
   \<and> (environ w ''HF_TOKEN'' = Some tok \<and> tok \<noteq> [] \<longrightarrow>
        Whoami tok \<in> set (fst (upload_to_huggingface
                                 (w\<lparr>environ := (environ w)(''HF_USERNAME'' \<mapsto> [])\<rparr>))))"
proof (intro conjI impI)
  show "upload_to_huggingface (w\<lparr>environ := (environ w)(''HF_TOKEN'' \<mapsto> [])\<rparr>) =
     upload_to_huggingface (w\<lparr>environ := (environ w)(''HF_TOKEN'' := None)\<rparr>)"
    by (simp add: upload_to_huggingface_def)
next
  show "upload_to_huggingface (w\<lparr>environ := (environ w)(''HF_TOKEN'' \<mapsto> [])\<rparr>) =
     ([], Inl (Exn ValueError ''HF_TOKEN not found in .env file''))"
    by (simp add: upload_to_huggingface_def)
next
  have "run_with_token (w\<lparr>environ := (environ w)(''HF_USERNAME'' \<mapsto> [])\<rparr>) t =
        run_with_token (w\<lparr>environ := (environ w)(''HF_USERNAME'' := None)\<rparr>) t" for t
    by (rule run_with_token_cong)
       (simp_all add: resolve_username_def lookup_username_environ repo_name_of_def
          ensure_repo_environ upload_results_environ)
  then show "upload_to_huggingface (w\<lparr>environ := (environ w)(''HF_USERNAME'' \<mapsto> [])\<rparr>) =
     upload_to_huggingface (w\<lparr>environ := (environ w)(''HF_USERNAME'' := None)\<rparr>)"
    by (simp add: upload_to_huggingface_def split: option.splits)
next
  let ?w = "w\<lparr>environ := (environ w)(''HF_USERNAME'' \<mapsto> [])\<rparr>"
  assume tok: "environ w ''HF_TOKEN'' = Some tok \<and> tok \<noteq> []"
  have "Whoami tok \<in> set (fst (lookup_username ?w tok))"
    by (simp add: lookup_username_def Let_def split: sum.splits option.splits)
  then have "Whoami tok \<in> set (fst (resolve_username ?w tok))"
    by (simp add: resolve_username_def)
  then have "Whoami tok \<in> set (fst (run_with_token ?w tok))"
    by (auto simp: run_with_token_def bind_run_def split: prod.splits sum.splits)
  with tok show "Whoami tok \<in> set (fst (upload_to_huggingface ?w))"
    by (simp add: upload_to_huggingface_def)
qed

theorem empty_setting_is_unset_witness:
  "environ example_world ''HF_TOKEN'' = Some ''hf_secret'' \<and> ''hf_secret'' \<noteq> []
   \<and> Whoami ''hf_secret'' \<in> set (fst (upload_to_huggingface
        (example_world\<lparr>environ := (environ example_world)(''HF_USERNAME'' \<mapsto> [])\<rparr>)))"
  using empty_setting_is_unset [of example_world "''hf_secret''", THEN conjunct2, THEN conjunct2,
          THEN conjunct2]
  by (simp add: example_world_def)

subsection \<open>The account\<close>

text \<open>
  C6. When \<^verbatim>\<open>HF_USERNAME\<close> is supplied, that is, set to a value that is not empty, no
  \<^verbatim>\<open>whoami\<close> call is made during the run, whatever the token.
\<close>

theorem supplied_username_skips_whoami:
  assumes "environ w ''HF_USERNAME'' = Some u" and "u \<noteq> []"
  shows "Whoami t \<notin> set (fst (upload_to_huggingface w))"
proof
  assume "Whoami t \<in> set (fst (upload_to_huggingface w))"
  then obtain tok where "Whoami t \<in> set (fst (run_with_token w tok))"
    by (auto simp: upload_to_huggingface_def split: option.splits if_splits)
  moreover have "resolve_username w tok = ([], Inr u)"
    using assms by (simp add: resolve_username_def)
  ultimately show False
    by (auto simp: run_with_token_def Let_def
          dest!: fst_bind_run_subset git_commit_events ensure_repo_events upload_results_events)
qed

theorem supplied_username_skips_whoami_witness:
  "environ example_world ''HF_USERNAME'' = Some ''alice'' \<and> ''alice'' \<noteq> []
   \<and> Whoami ''hf_secret'' \<notin> set (fst (upload_to_huggingface example_world))"
  using supplied_username_skips_whoami [of example_world "''alice''" "''hf_secret''"]
  by (simp add: example_world_def)

subsection \<open>The revision identifier\<close>

text \<open>
  C5, as the code has it. When \<^verbatim>\<open>subprocess.run\<close> raises a
  \<^verbatim>\<open>CalledProcessError\<close> (the command failed) or a \<^verbatim>\<open>FileNotFoundError\<close> (the tool is
  missing), \<open>get_current_git_commit\<close> prints one diagnostic line and returns
  \<^verbatim>\<open>None\<close>. An exception of any other class is not caught: it leaves the function, and
  nothing is printed.
\<close>

theorem git_failure_handling:
  "(class_of e \<in> {CalledProcessError, FileNotFoundError} \<longrightarrow>
      (\<exists>msg. get_current_git_commit (Inl e) = ([SubprocessRun git_argv, Print msg], Inr None)))
   \<and> (class_of e \<notin> {CalledProcessError, FileNotFoundError} \<longrightarrow>
      get_current_git_commit (Inl e) = ([SubprocessRun git_argv], Inl e))"
  by auto

theorem git_failure_handling_witness:
  "class_of (Exn FileNotFoundError ''[Errno 2] No such file or directory'')
     \<in> {CalledProcessError, FileNotFoundError}
   \<and> class_of (Exn (OtherError ''OSError'') ''[Errno 8] Exec format error'')
     \<notin> {CalledProcessError, FileNotFoundError}
   \<and> snd (get_current_git_commit
            (Inl (Exn FileNotFoundError ''[Errno 2] No such file or directory''))) = Inr None
   \<and> snd (get_current_git_commit
            (Inl (Exn (OtherError ''OSError'') ''[Errno 8] Exec format error'')))
      = Inl (Exn (OtherError ''OSError'') ''[Errno 8] Exec format error'')"
  using git_failure_handling [of "Exn FileNotFoundError ''[Errno 2] No such file or directory''"]
    git_failure_handling [of "Exn (OtherError ''OSError'') ''[Errno 8] Exec format error''"]
  by simp

text \<open>
  The claim that the function never raises fails for a \<^verbatim>\<open>PermissionError\<close>, which
  \<^verbatim>\<open>subprocess.run\<close> raises when the \<^verbatim>\<open>git\<close> found on the path may not be executed.
\<close>

theorem git_never_raises_counterexample:
  "get_current_git_commit
     (Inl (Exn (OtherError ''PermissionError'') ''[Errno 13] Permission denied''))
   = ([SubprocessRun git_argv],
      Inl (Exn (OtherError ''PermissionError'') ''[Errno 13] Permission denied''))"
  by simp

text \<open>
  C8, as the code has it. The identifier returned is the whole standard output with its
  leading and trailing whitespace removed. It is the trimmed first line whenever nothing
  but whitespace follows the first line feed, as in the one line that
  \<^verbatim>\<open>git rev-parse --short HEAD\<close> prints.
\<close>

theorem commit_id_is_stripped_output:
  "get_current_git_commit (Inr out) = ([SubprocessRun git_argv], Inr (Some (strip out)))
   \<and> ((\<forall>c \<in> set (after_first_line out). isspace c) \<longrightarrow> strip out = strip (first_line out))"
proof
  show "get_current_git_commit (Inr out) = ([SubprocessRun git_argv], Inr (Some (strip out)))"
    by simp
next
  show "(\<forall>c \<in> set (after_first_line out). isspace c) \<longrightarrow> strip out = strip (first_line out)"
  proof
    assume ws: "\<forall>c \<in> set (after_first_line out). isspace c"
    have "isspace (CHR 0x0A)" by (simp add: isspace_def)
    with ws have "\<forall>c \<in> set (CHR 0x0A # after_first_line out). isspace c" by simp
    then have "strip (first_line out @ CHR 0x0A # after_first_line out) = strip (first_line out)"
      by (rule strip_append_space)
    with split_first_line [of out] show "strip out = strip (first_line out)"
      by metis
  qed
qed

theorem commit_id_is_stripped_output_witness:
  "after_first_line (''abc1234'' @ [CHR 0x0A]) = []
   \<and> snd (get_current_git_commit (Inr (''abc1234'' @ [CHR 0x0A]))) = Inr (Some ''abc1234'')
   \<and> strip (first_line (''abc1234'' @ [CHR 0x0A])) = ''abc1234''"
  using commit_id_is_stripped_output [of "''abc1234'' @ [CHR 0x0A]"]
  by (simp add: after_first_line_def first_line_def strip_def isspace_def)

text \<open>
  The claim that the identifier is the trimmed first line fails on an output of two
  lines: the line feed inside and the second line are kept.
\<close>

theorem commit_id_first_line_counterexample:
  "snd (get_current_git_commit (Inr (''abc1234'' @ [CHR 0x0A] @ ''def5678'' @ [CHR 0x0A])))
     \<noteq> Inr (Some (strip (first_line (''abc1234'' @ [CHR 0x0A] @ ''def5678'' @ [CHR 0x0A]))))"
  by (simp add: first_line_def strip_def isspace_def)


subsection \<open>Creating the repository\<close>

lemma resolve_username_create:
  "resolve_username (w\<lparr>hub_create_repo := c\<rparr>) tok = resolve_username w tok"
  by (simp add: resolve_username_def lookup_username_def split: option.splits)


lemma run_reaches_create:
  assumes "CreateRepo rid rt pv tk \<in> set (fst (upload_to_huggingface w))"
  obtains t1 hf_username t2 commit_id where
    "environ w ''HF_TOKEN'' = Some tk" and "tk \<noteq> []"
    and "resolve_username w tk = (t1, Inr hf_username)"
    and "get_current_git_commit (git_rev_parse w) = (t2, Inr commit_id)"
    and "rid = hf_username @ ''/'' @ repo_name_of w" and "rt = ''dataset''" and "pv = False"
proof -
  from assms obtain tok where tok: "environ w ''HF_TOKEN'' = Some tok" "tok \<noteq> []"
    and run: "upload_to_huggingface w = run_with_token w tok"
    by (auto simp: upload_to_huggingface_def split: option.splits if_splits)
  let ?ev = "CreateRepo rid rt pv tk"
  obtain t1 r1 where u: "resolve_username w tok = (t1, r1)" by (cases "resolve_username w tok")
  obtain t2 r2 where g: "get_current_git_commit (git_rev_parse w) = (t2, r2)"
    by (cases "get_current_git_commit (git_rev_parse w)")
  have n1: "?ev \<notin> set t1"
    using resolve_username_events [of ?ev w tok] u by auto
  have n2: "?ev \<notin> set t2"
    using git_commit_events [of ?ev "git_rev_parse w"] g by auto
  from assms run have mem: "?ev \<in> set (fst (run_with_token w tok))" by simp
  obtain hf_username where user: "r1 = Inr hf_username"
    using mem u n1 run_fails_in_resolve [of w tok t1] by (cases r1) auto
  obtain commit_id where cid: "r2 = Inr commit_id"
    using mem u g user n1 n2 run_fails_in_git [of w tok t1 hf_username t2] by (cases r2) auto
  let ?rid = "hf_username @ ''/'' @ repo_name_of w"
  obtain t3 r3 where c: "ensure_repo w ?rid tok = (t3, r3)" by (cases "ensure_repo w ?rid tok")
  obtain t4 r4 where up: "upload_results w ?rid tok commit_id = (t4, r4)"
    by (cases "upload_results w ?rid tok commit_id")
  have n4: "?ev \<notin> set t4"
    using upload_results_events [of ?ev w ?rid tok commit_id] up by auto
  have "fst (run_with_token w tok) = t1 @ t2 @ t3 \<or> fst (run_with_token w tok) = t1 @ t2 @ t3 @ t4"
    using run_fails_in_create [of w tok t1 hf_username t2 commit_id t3]
      run_reaches_upload [of w tok t1 hf_username t2 commit_id t3 _ t4 r4] u g user cid c up
    by (cases r3) auto
  with mem n1 n2 n4 have "?ev \<in> set t3" by auto
  then have "?ev = CreateRepo ?rid ''dataset'' False tok"
    using ensure_repo_events [of ?ev w ?rid tok] c by auto
  with tok u g user cid that show thesis by simp
qed

lemma upload_results_loop:
  assumes "results_node w = Some (Directory es)"
  shows "Print (''Uploading files from results to '' @ rid)
           \<in> set (fst (upload_results w rid tok cid))"
    and "uploads_of (fst (upload_results w rid tok cid)) =
           uploads_of (fst (upload_loop w rid tok (commit_prefix_of cid)
                              (files_to_upload (Directory es))))"
    and "snd (upload_results w rid tok cid) =
           snd (upload_loop w rid tok (commit_prefix_of cid) (files_to_upload (Directory es)))"
proof -
  let ?fs = "files_to_upload (Directory es)"
  let ?p = "commit_prefix_of cid"
  obtain lt lr where loop: "upload_loop w rid tok ?p ?fs = (lt, lr)"
    by (cases "upload_loop w rid tok ?p ?fs")
  note s = summary_uploads [of rid cid]
  from assms loop show "Print (''Uploading files from results to '' @ rid)
      \<in> set (fst (upload_results w rid tok cid))"
    by (cases lr) (simp_all add: upload_results_def bind_run_def)
  from assms loop s show "uploads_of (fst (upload_results w rid tok cid)) =
      uploads_of (fst (upload_loop w rid tok ?p ?fs))"
    by (cases lr) (simp_all add: upload_results_def bind_run_def uploads_of_append)
  from assms loop show "snd (upload_results w rid tok cid) = snd (upload_loop w rid tok ?p ?fs)"
    by (cases lr) (simp_all add: upload_results_def bind_run_def)
qed

lemma upload_results_no_directory:
  assumes "\<forall>es. results_node w \<noteq> Some (Directory es)"
  shows "upload_results w rid tok cid =
           ([], Inl (Exn ValueError ''Results directory not found at results''))"
  using assms by (simp add: upload_results_def split: option.splits fsnode.splits)

text \<open>
  C1. Suppose the run makes the creation call and the call raises the error \<open>e\<close>.

  If the text of \<open>e\<close> contains \<^verbatim>\<open>409\<close> or \<^verbatim>\<open>You already created this\<close>, the error
  does not end the run. The run goes on with lines 81 to 112, exactly as the run in which
  the creation succeeds: the same events before the call, after it the events of
  \<open>upload_results\<close>, and its outcome; only the line printed after the call differs. In
  particular, when the results directory exists the run enters the upload loop: it
  announces the uploads, its upload calls and its outcome are those of the loop over the
  files of the directory, and when each of these upload calls returns the run returns
  normally after one upload per file. When the results directory does not exist the run
  ends with the \<^verbatim>\<open>ValueError\<close> of line 83, not with \<open>e\<close>.

  If the text of \<open>e\<close> contains neither, the run ends with \<open>e\<close> itself and no upload call
  has been made.
\<close>

theorem creation_error_handling:
  assumes "CreateRepo rid rt pv tk \<in> set (fst (upload_to_huggingface w))"
    and "hub_create_repo w rid rt pv tk = Some e"
  shows "if sublist ''409'' (str_of e) \<or> sublist ''You already created this'' (str_of e)
         then \<exists>pre cid.
                snd (get_current_git_commit (git_rev_parse w)) = Inr cid
              \<and> upload_to_huggingface w =
                  (pre @ [CreateRepo rid rt pv tk,
                          Print ''Repository already exists, continuing with upload...'']
                       @ fst (upload_results w rid tk cid),
                   snd (upload_results w rid tk cid))
              \<and> upload_to_huggingface (w\<lparr>hub_create_repo := \<lambda>_ _ _ _. None\<rparr>) =
                  (pre @ [CreateRepo rid rt pv tk, Print ''Repository created successfully'']
                       @ fst (upload_results w rid tk cid),
                   snd (upload_results w rid tk cid))
              \<and> (\<forall>es. results_node w = Some (Directory es) \<longrightarrow>
                    Print (''Uploading files from results to '' @ rid)
                      \<in> set (fst (upload_to_huggingface w))
                  \<and> uploads_of (fst (upload_to_huggingface w)) =
                      uploads_of (fst (upload_loop w rid tk (commit_prefix_of cid)
                                         (files_to_upload (Directory es))))
                  \<and> snd (upload_to_huggingface w) =
                      snd (upload_loop w rid tk (commit_prefix_of cid)
                             (files_to_upload (Directory es)))
                  \<and> ((\<forall>f \<in> set (files_to_upload (Directory es)).
                         hub_upload_file w (upload_call rid tk (commit_prefix_of cid) f) = None)
                     \<longrightarrow> snd (upload_to_huggingface w) = Inr ()
                       \<and> uploads_of (fst (upload_to_huggingface w)) =
                           map (upload_call rid tk (commit_prefix_of cid))
                               (files_to_upload (Directory es))))
              \<and> ((\<forall>es. results_node w \<noteq> Some (Directory es)) \<longrightarrow>
                    snd (upload_to_huggingface w) =
                      Inl (Exn ValueError ''Results directory not found at results''))
         else snd (upload_to_huggingface w) = Inl e
              \<and> (\<forall>a. UploadFile a \<notin> set (fst (upload_to_huggingface w)))"
proof -
  from assms(1) obtain t1 hf_username t2 commit_id where
    tok: "environ w ''HF_TOKEN'' = Some tk" "tk \<noteq> []"
    and u: "resolve_username w tk = (t1, Inr hf_username)"
    and g: "get_current_git_commit (git_rev_parse w) = (t2, Inr commit_id)"
    and rid: "rid = hf_username @ ''/'' @ repo_name_of w" and rt: "rt = ''dataset''" and pv: "pv = False"
    by (rule run_reaches_create)
  let ?w' = "w\<lparr>hub_create_repo := \<lambda>_ _ _ _. None\<rparr>"
  let ?head = "Print (''Checking/creating repository: '' @ rid)"
  let ?run = "upload_to_huggingface w"
  from assms(2) rt pv have create: "hub_create_repo w rid ''dataset'' False tk = Some e" by simp
  obtain t4 r4 where up: "upload_results w rid tk commit_id = (t4, r4)"
    by (cases "upload_results w rid tk commit_id")
  show ?thesis
  proof (cases "sublist ''409'' (str_of e) \<or> sublist ''You already created this'' (str_of e)")
    case True
    let ?pre = "t1 @ t2 @ [?head]"
    let ?p = "commit_prefix_of commit_id"
    from True have "ensure_repo w rid tk =
        ([?head, CreateRepo rid rt pv tk,
          Print ''Repository already exists, continuing with upload...''], Inr ())"
      using create rt pv by (auto simp: ensure_repo_def str_contains_sublist)
    with tok u g rid up have run: "?run =
        (?pre @ [CreateRepo rid rt pv tk,
          Print ''Repository already exists, continuing with upload...''] @ t4, r4)"
      using run_reaches_upload [of w tk t1 hf_username t2 commit_id _ "()" t4 r4]
      by (simp add: upload_to_huggingface_def)
    have "ensure_repo ?w' rid tk =
        ([?head, CreateRepo rid rt pv tk, Print ''Repository created successfully''], Inr ())"
      using rt pv by (simp add: ensure_repo_def)
    moreover have "repo_name_of ?w' = repo_name_of w" by (simp add: repo_name_of_def)
    ultimately have run': "upload_to_huggingface ?w' =
        (?pre @ [CreateRepo rid rt pv tk, Print ''Repository created successfully''] @ t4, r4)"
      using tok u g rid up run_reaches_upload [of ?w' tk t1 hf_username t2 commit_id _ "()" t4 r4]
      by (simp add: upload_to_huggingface_def resolve_username_create upload_results_create)
    have "uploads_of t1 = []"
      using resolve_username_uploads [of w tk] u by simp
    moreover have "uploads_of t2 = []"
      using git_commit_uploads [of "git_rev_parse w"] g by simp
    ultimately have ups: "uploads_of (fst ?run) = uploads_of t4"
      using run by (simp add: uploads_of_append)
    from run have res: "snd ?run = r4" by simp
    from run have evs: "set t4 \<subseteq> set (fst ?run)" by auto
    have dir: "Print (''Uploading files from results to '' @ rid) \<in> set (fst ?run)
        \<and> uploads_of (fst ?run) =
            uploads_of (fst (upload_loop w rid tk ?p (files_to_upload (Directory es))))
        \<and> snd ?run = snd (upload_loop w rid tk ?p (files_to_upload (Directory es)))
        \<and> ((\<forall>f \<in> set (files_to_upload (Directory es)).
               hub_upload_file w (upload_call rid tk ?p f) = None)
           \<longrightarrow> snd ?run = Inr ()
             \<and> uploads_of (fst ?run) =
                 map (upload_call rid tk ?p) (files_to_upload (Directory es)))"
      if d: "results_node w = Some (Directory es)" for es
    proof (intro conjI impI)
      show "Print (''Uploading files from results to '' @ rid) \<in> set (fst ?run)"
        using upload_results_loop(1) [OF d, of rid tk commit_id] up evs by auto
      show l: "uploads_of (fst ?run) =
          uploads_of (fst (upload_loop w rid tk ?p (files_to_upload (Directory es))))"
        using upload_results_loop(2) [OF d, of rid tk commit_id] up ups by simp
      show r: "snd ?run = snd (upload_loop w rid tk ?p (files_to_upload (Directory es)))"
        using upload_results_loop(3) [OF d, of rid tk commit_id] up res by simp
      assume ok: "\<forall>f \<in> set (files_to_upload (Directory es)).
          hub_upload_file w (upload_call rid tk ?p f) = None"
      from upload_loop_completes [OF ok] l r
      show "snd ?run = Inr ()"
        and "uploads_of (fst ?run) = map (upload_call rid tk ?p) (files_to_upload (Directory es))"
        by simp_all
    qed
    have nodir: "snd ?run = Inl (Exn ValueError ''Results directory not found at results'')"
      if "\<forall>es. results_node w \<noteq> Some (Directory es)"
      using upload_results_no_directory [OF that, of rid tk commit_id] up res by simp
    from g have gg: "snd (get_current_git_commit (git_rev_parse w)) = Inr commit_id" by simp
    from up have t4: "fst (upload_results w rid tk commit_id) = t4"
      and r4: "snd (upload_results w rid tk commit_id) = r4" by simp_all
    have "\<exists>pre cid.
                snd (get_current_git_commit (git_rev_parse w)) = Inr cid
              \<and> ?run =
                  (pre @ [CreateRepo rid rt pv tk,
                          Print ''Repository already exists, continuing with upload...'']
                       @ fst (upload_results w rid tk cid),
                   snd (upload_results w rid tk cid))
              \<and> upload_to_huggingface ?w' =
                  (pre @ [CreateRepo rid rt pv tk, Print ''Repository created successfully'']
                       @ fst (upload_results w rid tk cid),
                   snd (upload_results w rid tk cid))
              \<and> (\<forall>es. results_node w = Some (Directory es) \<longrightarrow>
                    Print (''Uploading files from results to '' @ rid) \<in> set (fst ?run)
                  \<and> uploads_of (fst ?run) =
                      uploads_of (fst (upload_loop w rid tk (commit_prefix_of cid)
                                         (files_to_upload (Directory es))))
                  \<and> snd ?run =
                      snd (upload_loop w rid tk (commit_prefix_of cid)
                             (files_to_upload (Directory es)))
                  \<and> ((\<forall>f \<in> set (files_to_upload (Directory es)).
                         hub_upload_file w (upload_call rid tk (commit_prefix_of cid) f) = None)
                     \<longrightarrow> snd ?run = Inr ()
                       \<and> uploads_of (fst ?run) =
                           map (upload_call rid tk (commit_prefix_of cid))
                               (files_to_upload (Directory es))))
              \<and> ((\<forall>es. results_node w \<noteq> Some (Directory es)) \<longrightarrow>
                    snd ?run = Inl (Exn ValueError ''Results directory not found at results''))"
    proof (intro exI [of _ ?pre] exI [of _ commit_id] conjI allI impI)
      show "snd (get_current_git_commit (git_rev_parse w)) = Inr commit_id" by (rule gg)
      show "?run = (?pre @ [CreateRepo rid rt pv tk,
                          Print ''Repository already exists, continuing with upload...'']
                       @ fst (upload_results w rid tk commit_id),
                   snd (upload_results w rid tk commit_id))"
        unfolding t4 r4 by (rule run)
      show "upload_to_huggingface ?w' =
                  (?pre @ [CreateRepo rid rt pv tk, Print ''Repository created successfully'']
                       @ fst (upload_results w rid tk commit_id),
                   snd (upload_results w rid tk commit_id))"
        unfolding t4 r4 by (rule run')
    qed (use dir nodir in blast)+
    with True show ?thesis by (simp only: if_True)
  next
    case False
    then have "ensure_repo w rid tk =
        ([?head, CreateRepo rid rt pv tk, Print (''Error while creating repository: '' @ str_of e)],
         Inl e)"
      using create rt pv by (auto simp: ensure_repo_def str_contains_sublist)
    with tok u g rid have run: "upload_to_huggingface w =
        (t1 @ t2 @ [?head, CreateRepo rid rt pv tk,
                    Print (''Error while creating repository: '' @ str_of e)], Inl e)"
      using run_fails_in_create [of w tk t1 hf_username t2 commit_id _ e]
      by (simp add: upload_to_huggingface_def)
    have "UploadFile a \<notin> set t1" for a
      using resolve_username_events [of "UploadFile a" w tk] u by auto
    moreover have "UploadFile a \<notin> set t2" for a
      using git_commit_events [of "UploadFile a" "git_rev_parse w"] g by auto
    ultimately show ?thesis using run False by simp
  qed
qed

theorem creation_error_handling_witness:
  "CreateRepo ''alice/longbench-results'' ''dataset'' False ''hf_secret''
     \<in> set (fst (upload_to_huggingface conflict_world))
   \<and> hub_create_repo conflict_world ''alice/longbench-results'' ''dataset'' False ''hf_secret''
       = Some conflict_error
   \<and> sublist ''409'' (str_of conflict_error)
   \<and> results_node conflict_world =
       Some (Directory [(''a.txt'', RegularFile), (''sub'', Directory [(''b.txt'', RegularFile)])])
   \<and> Print ''Uploading files from results to alice/longbench-results''
       \<in> set (fst (upload_to_huggingface conflict_world))
   \<and> snd (upload_to_huggingface conflict_world) = Inr ()
   \<and> uploads_of (fst (upload_to_huggingface conflict_world)) =
       map (upload_call ''alice/longbench-results'' ''hf_secret''
              ''Update from github (commit id) abc1234'')
           [''results/a.txt'', ''results/sub/b.txt'']
   \<and> (\<exists>pre.
         upload_to_huggingface conflict_world =
           (pre @ [CreateRepo ''alice/longbench-results'' ''dataset'' False ''hf_secret'',
                   Print ''Repository already exists, continuing with upload...'']
                @ fst (upload_results conflict_world ''alice/longbench-results'' ''hf_secret''
                         (Some ''abc1234'')),
            snd (upload_results conflict_world ''alice/longbench-results'' ''hf_secret''
                   (Some ''abc1234'')))
       \<and> upload_to_huggingface (conflict_world\<lparr>hub_create_repo := \<lambda>_ _ _ _. None\<rparr>) =
           (pre @ [CreateRepo ''alice/longbench-results'' ''dataset'' False ''hf_secret'',
                   Print ''Repository created successfully'']
                @ fst (upload_results conflict_world ''alice/longbench-results'' ''hf_secret''
                         (Some ''abc1234'')),
            snd (upload_results conflict_world ''alice/longbench-results'' ''hf_secret''
                   (Some ''abc1234''))))
   \<and> CreateRepo ''alice/longbench-results'' ''dataset'' False ''hf_secret''
     \<in> set (fst (upload_to_huggingface (conflict_world\<lparr>results_node := None\<rparr>)))
   \<and> snd (upload_to_huggingface (conflict_world\<lparr>results_node := None\<rparr>)) =
       Inl (Exn ValueError ''Results directory not found at results'')
   \<and> CreateRepo ''alice/longbench-results'' ''dataset'' False ''hf_secret''
     \<in> set (fst (upload_to_huggingface denied_world))
   \<and> hub_create_repo denied_world ''alice/longbench-results'' ''dataset'' False ''hf_secret''
       = Some denied_error
   \<and> \<not> sublist ''409'' (str_of denied_error)
   \<and> \<not> sublist ''You already created this'' (str_of denied_error)
   \<and> snd (upload_to_huggingface denied_world) = Inl denied_error
   \<and> (\<forall>a. UploadFile a \<notin> set (fst (upload_to_huggingface denied_world)))"
proof -
  let ?rid = "''alice/longbench-results''"
  let ?tok = "''hf_secret''"
  let ?es = "[(''a.txt'', RegularFile), (''sub'', Directory [(''b.txt'', RegularFile)])]"
  let ?nodir = "conflict_world\<lparr>results_node := None\<rparr>"
  have c: "sublist ''409'' (str_of conflict_error)"
    by (simp add: conflict_error_def str_contains_sublist [symmetric])
  have d: "\<not> sublist ''409'' (str_of denied_error)"
    "\<not> sublist ''You already created this'' (str_of denied_error)"
    by (simp_all add: denied_error_def str_contains_sublist [symmetric])
  have m1: "CreateRepo ?rid ''dataset'' False ?tok \<in> set (fst (upload_to_huggingface conflict_world))"
    by (simp add: conflict_run)
  have h1: "hub_create_repo conflict_world ?rid ''dataset'' False ?tok = Some conflict_error"
    by (simp add: conflict_world_def)
  have m2: "CreateRepo ?rid ''dataset'' False ?tok \<in> set (fst (upload_to_huggingface denied_world))"
    by (simp add: denied_run)
  have h2: "hub_create_repo denied_world ?rid ''dataset'' False ?tok = Some denied_error"
    by (simp add: denied_world_def)
  have m3: "CreateRepo ?rid ''dataset'' False ?tok \<in> set (fst (upload_to_huggingface ?nodir))"
    by (simp add: conflict_world_def conflict_error_def example_world_def run_simps)
  have h3: "hub_create_repo ?nodir ?rid ''dataset'' False ?tok = Some conflict_error"
    by (simp add: conflict_world_def)
  have g: "snd (get_current_git_commit (git_rev_parse conflict_world)) = Inr (Some ''abc1234'')"
    by (simp add: conflict_world_def example_world_def strip_def isspace_def)
  have dir: "results_node conflict_world = Some (Directory ?es)"
    by (simp add: conflict_world_def example_world_def two_files_def)
  have files: "files_to_upload (Directory ?es) = [''results/a.txt'', ''results/sub/b.txt'']"
    using files_two_files by (simp add: two_files_def)
  have prefix: "commit_prefix_of (Some ''abc1234'') = ''Update from github (commit id) abc1234''"
    by (simp add: commit_prefix_of_def)
  have ok: "\<forall>f \<in> set (files_to_upload (Directory ?es)).
      hub_upload_file conflict_world
        (upload_call ?rid ?tok (commit_prefix_of (Some ''abc1234'')) f) = None"
    by (simp add: conflict_world_def example_world_def)
  note t1 = creation_error_handling [OF m1 h1, unfolded if_P [OF disjI1 [OF c]]]
  then obtain pre cid where
    f1: "snd (get_current_git_commit (git_rev_parse conflict_world)) = Inr cid"
    and f2: "upload_to_huggingface conflict_world =
        (pre @ [CreateRepo ?rid ''dataset'' False ?tok,
                Print ''Repository already exists, continuing with upload...'']
             @ fst (upload_results conflict_world ?rid ?tok cid),
         snd (upload_results conflict_world ?rid ?tok cid))"
    and f3: "upload_to_huggingface (conflict_world\<lparr>hub_create_repo := \<lambda>_ _ _ _. None\<rparr>) =
        (pre @ [CreateRepo ?rid ''dataset'' False ?tok, Print ''Repository created successfully'']
             @ fst (upload_results conflict_world ?rid ?tok cid),
         snd (upload_results conflict_world ?rid ?tok cid))"
    and f4: "\<forall>es. results_node conflict_world = Some (Directory es) \<longrightarrow>
          Print (''Uploading files from results to '' @ ?rid)
            \<in> set (fst (upload_to_huggingface conflict_world))
        \<and> uploads_of (fst (upload_to_huggingface conflict_world)) =
            uploads_of (fst (upload_loop conflict_world ?rid ?tok (commit_prefix_of cid)
                               (files_to_upload (Directory es))))
        \<and> snd (upload_to_huggingface conflict_world) =
            snd (upload_loop conflict_world ?rid ?tok (commit_prefix_of cid)
                   (files_to_upload (Directory es)))
        \<and> ((\<forall>f \<in> set (files_to_upload (Directory es)).
               hub_upload_file conflict_world (upload_call ?rid ?tok (commit_prefix_of cid) f) = None)
           \<longrightarrow> snd (upload_to_huggingface conflict_world) = Inr ()
             \<and> uploads_of (fst (upload_to_huggingface conflict_world)) =
                 map (upload_call ?rid ?tok (commit_prefix_of cid))
                     (files_to_upload (Directory es)))"
    by blast
  from f1 g have cid: "cid = Some ''abc1234''" by simp
  note loop = f4 [rule_format, OF dir, unfolded cid]
  from loop have p: "Print ''Uploading files from results to alice/longbench-results''
      \<in> set (fst (upload_to_huggingface conflict_world))"
    by simp
  from loop ok have fin: "snd (upload_to_huggingface conflict_world) = Inr ()
      \<and> uploads_of (fst (upload_to_huggingface conflict_world)) =
          map (upload_call ?rid ?tok (commit_prefix_of (Some ''abc1234'')))
              (files_to_upload (Directory ?es))"
    by blast
  from f2 f3 have same: "\<exists>pre.
         upload_to_huggingface conflict_world =
           (pre @ [CreateRepo ?rid ''dataset'' False ?tok,
                   Print ''Repository already exists, continuing with upload...'']
                @ fst (upload_results conflict_world ?rid ?tok (Some ''abc1234'')),
            snd (upload_results conflict_world ?rid ?tok (Some ''abc1234'')))
       \<and> upload_to_huggingface (conflict_world\<lparr>hub_create_repo := \<lambda>_ _ _ _. None\<rparr>) =
           (pre @ [CreateRepo ?rid ''dataset'' False ?tok,
                   Print ''Repository created successfully'']
                @ fst (upload_results conflict_world ?rid ?tok (Some ''abc1234'')),
            snd (upload_results conflict_world ?rid ?tok (Some ''abc1234'')))"
    unfolding cid by blast
  have "\<forall>es. results_node ?nodir \<noteq> Some (Directory es)" by simp
  with creation_error_handling [OF m3 h3, unfolded if_P [OF disjI1 [OF c]]]
  have r3: "snd (upload_to_huggingface ?nodir) =
      Inl (Exn ValueError ''Results directory not found at results'')"
    by blast
  from creation_error_handling [OF m2 h2] d
  have r2: "snd (upload_to_huggingface denied_world) = Inl denied_error
            \<and> (\<forall>a. UploadFile a \<notin> set (fst (upload_to_huggingface denied_world)))"
    by (simp only: simp_thms if_False)
  from fin have fin': "snd (upload_to_huggingface conflict_world) = Inr ()"
    and ups: "uploads_of (fst (upload_to_huggingface conflict_world)) =
       map (upload_call ?rid ?tok ''Update from github (commit id) abc1234'')
           [''results/a.txt'', ''results/sub/b.txt'']"
    by (simp_all only: prefix files)
  from r2 have r2a: "snd (upload_to_huggingface denied_world) = Inl denied_error"
    and r2b: "\<forall>a. UploadFile a \<notin> set (fst (upload_to_huggingface denied_world))"
    by blast+
  show ?thesis
    by (intro conjI m1 h1 c dir p fin' ups same m3 r3 m2 h2 d r2a r2b)
qed

subsection \<open>The upload loop\<close>

lemma split_after_clean_prefix:
  assumes "xs @ tr = pre @ UploadFile a # post" and "UploadFile a \<notin> set xs"
  shows "\<exists>pre'. pre = xs @ pre' \<and> tr = pre' @ UploadFile a # post"
  using assms by (induction xs arbitrary: pre) (auto simp: Cons_eq_append_conv)

lemma upload_loop_stops_at_failure:
  assumes "upload_loop w rid tok p fs = (tr, r)"
    and "tr = pre @ UploadFile a # post"
    and "hub_upload_file w a = Some e"
  shows "post = [] \<and> r = Inl e"
  using assms
proof (induction fs arbitrary: tr r pre)
  case Nil
  then show ?case by simp
next
  case (Cons f fs)
  let ?call = "upload_call rid tok p f"
  show ?case
  proof (cases "hub_upload_file w ?call")
    case (Some e')
    with Cons.prems have "[Print (''Uploading '' @ relpath f), UploadFile ?call] = pre @ UploadFile a # post"
      and "r = Inl e'"
      by (auto simp: Let_def)
    with Some Cons.prems(3) show ?thesis
      by (auto simp: Cons_eq_append_conv)
  next
    case None
    obtain tr' r' where rest: "upload_loop w rid tok p fs = (tr', r')"
      by (cases "upload_loop w rid tok p fs")
    with None Cons.prems have tr: "[Print (''Uploading '' @ relpath f), UploadFile ?call] @ tr' = pre @ UploadFile a # post"
      and r: "r = r'"
      by (auto simp: Let_def)
    from None Cons.prems(3) have "UploadFile a \<notin> set [Print (''Uploading '' @ relpath f), UploadFile ?call]"
      by auto
    with tr obtain pre' where "tr' = pre' @ UploadFile a # post"
      using split_after_clean_prefix by blast
    with Cons.IH [OF rest _ Cons.prems(3)] r show ?thesis by simp
  qed
qed

lemma upload_loop_ok_no_failure:
  "upload_loop w rid tok p fs = (tr, Inr u) \<Longrightarrow> UploadFile a \<in> set tr \<Longrightarrow>
   hub_upload_file w a = None"
  by (induction fs arbitrary: tr) (auto simp: Let_def split: option.splits prod.splits)

lemma upload_results_stops_at_failure:
  assumes "upload_results w rid tok cid = (tr, r)"
    and "tr = pre @ UploadFile a # post"
    and "hub_upload_file w a = Some e"
  shows "post = [] \<and> r = Inl e"
proof -
  from assms(1,2) obtain es where dir: "results_node w = Some (Directory es)"
    by (auto simp: upload_results_def split: option.splits fsnode.splits)
  let ?head = "[Print (''Uploading files from results to '' @ rid)]"
  obtain lt lr where loop:
    "upload_loop w rid tok (commit_prefix_of cid) (files_to_upload (Directory es)) = (lt, lr)"
    by (cases "upload_loop w rid tok (commit_prefix_of cid) (files_to_upload (Directory es))")
  show ?thesis
  proof (cases lr)
    case (Inl e')
    with assms(1) dir loop have "tr = ?head @ lt" and r: "r = lr"
      by (simp_all add: upload_results_def bind_run_def)
    with assms(2) obtain pre' where "lt = pre' @ UploadFile a # post"
      using split_after_clean_prefix [of ?head lt pre a post] by auto
    from upload_loop_stops_at_failure [OF loop this assms(3)] r show ?thesis by simp
  next
    case (Inr u)
    with assms(1) dir loop have tr: "tr = ?head @ lt @ summary rid cid"
      by (simp add: upload_results_def bind_run_def)
    from assms(2) have "UploadFile a \<in> set tr" by simp
    with tr have "UploadFile a \<in> set lt"
      by (auto dest: summary_events)
    with loop Inr assms(3) show ?thesis
      by (auto dest: upload_loop_ok_no_failure)
  qed
qed

lemma run_with_token_stops_at_failure:
  assumes "run_with_token w tok = (tr, r)"
    and "tr = pre @ UploadFile a # post"
    and "hub_upload_file w a = Some e"
  shows "post = [] \<and> r = Inl e"
proof -
  obtain t1 r1 where u: "resolve_username w tok = (t1, r1)" by (cases "resolve_username w tok")
  obtain t2 r2 where g: "get_current_git_commit (git_rev_parse w) = (t2, r2)"
    by (cases "get_current_git_commit (git_rev_parse w)")
  have n1: "UploadFile a \<notin> set t1"
    using resolve_username_events [of "UploadFile a" w tok] u by auto
  have n2: "UploadFile a \<notin> set t2"
    using git_commit_events [of "UploadFile a" "git_rev_parse w"] g by auto
  from assms(2) have mem: "UploadFile a \<in> set tr" by simp
  show ?thesis
  proof (cases r1)
    case (Inl e1)
    with assms(1) u have "tr = t1" by (simp add: run_with_token_def bind_run_def)
    with mem n1 show ?thesis by simp
  next
    case user: (Inr hf_username)
    let ?rid = "hf_username @ ''/'' @ repo_name_of w"
    show ?thesis
    proof (cases r2)
      case (Inl e2)
      with assms(1) u g user have "tr = t1 @ t2"
        by (simp add: run_with_token_def bind_run_def)
      with mem n1 n2 show ?thesis by simp
    next
      case cid: (Inr commit_id)
      obtain t3 r3 where c: "ensure_repo w ?rid tok = (t3, r3)" by (cases "ensure_repo w ?rid tok")
      have n3: "UploadFile a \<notin> set t3"
        using ensure_repo_events [of "UploadFile a" w ?rid tok] c by auto
      show ?thesis
      proof (cases r3)
        case (Inl e3)
        with assms(1) u g user cid c have "tr = t1 @ t2 @ t3"
          by (simp add: run_with_token_def bind_run_def)
        with mem n1 n2 n3 show ?thesis by simp
      next
        case (Inr unit)
        obtain t4 r4 where up: "upload_results w ?rid tok commit_id = (t4, r4)"
          by (cases "upload_results w ?rid tok commit_id")
        with assms(1) u g user cid c Inr have tr: "tr = (t1 @ t2 @ t3) @ t4" and r: "r = r4"
          by (simp_all add: run_with_token_def bind_run_def)
        from n1 n2 n3 have "UploadFile a \<notin> set (t1 @ t2 @ t3)" by simp
        with tr assms(2) obtain pre' where "t4 = pre' @ UploadFile a # post"
          using split_after_clean_prefix [of "t1 @ t2 @ t3" t4 pre a post] by auto
        from upload_results_stops_at_failure [OF up this assms(3)] r show ?thesis by simp
      qed
    qed
  qed
qed


lemma lookup_username_no_summary:
  "Print s \<in> set (fst (lookup_username w tok)) \<Longrightarrow> \<not> prefix ''Upload complete!'' s"
  by (auto simp: lookup_username_def Let_def split: sum.splits option.splits if_splits)

lemma resolve_username_no_summary:
  "Print s \<in> set (fst (resolve_username w tok)) \<Longrightarrow> \<not> prefix ''Upload complete!'' s"
  by (auto simp: resolve_username_def dest: lookup_username_no_summary
           split: option.splits if_splits)

lemma git_commit_no_summary:
  "Print s \<in> set (fst (get_current_git_commit g)) \<Longrightarrow> \<not> prefix ''Upload complete!'' s"
  by (cases g) (auto split: if_splits)

lemma ensure_repo_no_summary:
  "Print s \<in> set (fst (ensure_repo w rid tok)) \<Longrightarrow> \<not> prefix ''Upload complete!'' s"
  by (auto simp: ensure_repo_def split: option.splits if_splits)

lemma upload_loop_no_summary:
  "Print s \<in> set (fst (upload_loop w rid tok p fs)) \<Longrightarrow> \<not> prefix ''Upload complete!'' s"
  by (induction fs) (auto simp: Let_def split: option.splits prod.splits)

lemma upload_results_failed_no_summary:
  assumes "snd (upload_results w rid tok cid) = Inl e"
    and "Print s \<in> set (fst (upload_results w rid tok cid))"
  shows "\<not> prefix ''Upload complete!'' s"
proof -
  from assms(2) obtain es where dir: "results_node w = Some (Directory es)"
    by (auto simp: upload_results_def split: option.splits fsnode.splits)
  obtain lt lr where loop:
    "upload_loop w rid tok (commit_prefix_of cid) (files_to_upload (Directory es)) = (lt, lr)"
    by (cases "upload_loop w rid tok (commit_prefix_of cid) (files_to_upload (Directory es))")
  with assms(1) dir obtain e' where "lr = Inl e'"
    by (cases lr) (simp_all add: upload_results_def bind_run_def)
  with dir loop have "fst (upload_results w rid tok cid) =
      [Print (''Uploading files from results to '' @ rid)] @ lt"
    by (simp add: upload_results_def bind_run_def)
  with assms(2) have "s = ''Uploading files from results to '' @ rid \<or> Print s \<in> set lt"
    by auto
  then show ?thesis
    using upload_loop_no_summary [of s w rid tok "commit_prefix_of cid" "files_to_upload (Directory es)"]
      loop by auto
qed

lemma run_with_token_failed_no_summary:
  assumes "snd (run_with_token w tok) = Inl e"
    and "Print s \<in> set (fst (run_with_token w tok))"
  shows "\<not> prefix ''Upload complete!'' s"
proof -
  obtain t1 r1 where u: "resolve_username w tok = (t1, r1)" by (cases "resolve_username w tok")
  obtain t2 r2 where g: "get_current_git_commit (git_rev_parse w) = (t2, r2)"
    by (cases "get_current_git_commit (git_rev_parse w)")
  have n1: "Print s \<in> set t1 \<Longrightarrow> ?thesis"
    using resolve_username_no_summary [of s w tok] u by simp
  have n2: "Print s \<in> set t2 \<Longrightarrow> ?thesis"
    using git_commit_no_summary [of s "git_rev_parse w"] g by simp
  show ?thesis
  proof (cases r1)
    case (Inl e1)
    with u have "fst (run_with_token w tok) = t1" by (simp add: run_with_token_def bind_run_def)
    with assms(2) n1 show ?thesis by simp
  next
    case user: (Inr hf_username)
    let ?rid = "hf_username @ ''/'' @ repo_name_of w"
    show ?thesis
    proof (cases r2)
      case (Inl e2)
      with u g user have "fst (run_with_token w tok) = t1 @ t2"
        by (simp add: run_with_token_def bind_run_def)
      with assms(2) n1 n2 show ?thesis by auto
    next
      case cid: (Inr commit_id)
      obtain t3 r3 where c: "ensure_repo w ?rid tok = (t3, r3)" by (cases "ensure_repo w ?rid tok")
      have n3: "Print s \<in> set t3 \<Longrightarrow> ?thesis"
        using ensure_repo_no_summary [of s w ?rid tok] c by simp
      show ?thesis
      proof (cases r3)
        case (Inl e3)
        with u g user cid c have "fst (run_with_token w tok) = t1 @ t2 @ t3"
          by (simp add: run_with_token_def bind_run_def)
        with assms(2) n1 n2 n3 show ?thesis by auto
      next
        case (Inr unit)
        obtain t4 r4 where up: "upload_results w ?rid tok commit_id = (t4, r4)"
          by (cases "upload_results w ?rid tok commit_id")
        with u g user cid c Inr have tr: "fst (run_with_token w tok) = t1 @ t2 @ t3 @ t4"
          and r: "snd (run_with_token w tok) = r4"
          by (simp_all add: run_with_token_def bind_run_def)
        from r assms(1) up have "Print s \<in> set t4 \<Longrightarrow> ?thesis"
          using upload_results_failed_no_summary [of w ?rid tok commit_id e s] by simp
        with tr assms(2) n1 n2 n3 show ?thesis by auto
      qed
    qed
  qed
qed

text \<open>
  C4. Whenever the run makes an upload call that raises the error \<open>e\<close>, that call is the
  last event of the run: no upload call follows for any later file and nothing more is
  printed. The run ends with \<open>e\<close> itself, and no line of the run is the closing summary
  (\<^verbatim>\<open>Upload complete! ...\<close>).
\<close>

theorem upload_failure_ends_run:
  assumes "fst (upload_to_huggingface w) = pre @ UploadFile a # post"
    and "hub_upload_file w a = Some e"
  shows "post = [] \<and> snd (upload_to_huggingface w) = Inl e
         \<and> (\<forall>s. Print s \<in> set (fst (upload_to_huggingface w)) \<longrightarrow> \<not> prefix ''Upload complete!'' s)"
proof -
  from assms(1) obtain tok where run: "upload_to_huggingface w = run_with_token w tok"
    by (auto simp: upload_to_huggingface_def split: option.splits if_splits)
  obtain tr r where tr: "run_with_token w tok = (tr, r)" by (cases "run_with_token w tok")
  with run assms(1) have "tr = pre @ UploadFile a # post" by simp
  from run_with_token_stops_at_failure [OF tr this assms(2)]
  have stop: "post = [] \<and> r = Inl e" .
  with tr have "snd (run_with_token w tok) = Inl e" by simp
  then have "\<forall>s. Print s \<in> set (fst (run_with_token w tok)) \<longrightarrow> \<not> prefix ''Upload complete!'' s"
    using run_with_token_failed_no_summary by blast
  with stop run tr show ?thesis by simp
qed


theorem upload_failure_ends_run_witness:
  "fst (upload_to_huggingface failing_world) =
     [SubprocessRun [''git'', ''rev-parse'', ''--short'', ''HEAD''],
      Print ''Checking/creating repository: alice/longbench-results'',
      CreateRepo ''alice/longbench-results'' ''dataset'' False ''hf_secret'',
      Print ''Repository created successfully'',
      Print ''Uploading files from results to alice/longbench-results'',
      Print ''Uploading results/a.txt'']
     @ UploadFile (upload_call ''alice/longbench-results'' ''hf_secret''
                     ''Update from github (commit id) abc1234'' ''results/a.txt'') # []
   \<and> hub_upload_file failing_world
         (upload_call ''alice/longbench-results'' ''hf_secret''
            ''Update from github (commit id) abc1234'' ''results/a.txt'') = Some server_error
   \<and> snd (upload_to_huggingface failing_world) = Inl server_error"
proof -
  let ?call = "upload_call ''alice/longbench-results'' ''hf_secret''
                 ''Update from github (commit id) abc1234'' ''results/a.txt''"
  have h1: "fst (upload_to_huggingface failing_world) =
     [SubprocessRun [''git'', ''rev-parse'', ''--short'', ''HEAD''],
      Print ''Checking/creating repository: alice/longbench-results'',
      CreateRepo ''alice/longbench-results'' ''dataset'' False ''hf_secret'',
      Print ''Repository created successfully'',
      Print ''Uploading files from results to alice/longbench-results'',
      Print ''Uploading results/a.txt'']
     @ UploadFile ?call # []"
    by (simp add: failing_run upload_call_def relpath_a)
  have h2: "hub_upload_file failing_world ?call = Some server_error"
    by (simp add: failing_world_def upload_call_def relpath_a)
  from upload_failure_ends_run [OF h1 h2] h1 h2 show ?thesis by simp
qed

subsection \<open>The repository identifier\<close>

lemma resolve_username_ok:
  assumes "resolve_username w tok = (t, Inr u)"
  shows "environ w ''HF_USERNAME'' = Some u \<and> u \<noteq> []
         \<or> environ w ''HF_USERNAME'' \<in> {None, Some []}
           \<and> (\<exists>info. hub_whoami w tok = Inr info \<and> info ''name'' = Some u \<and> u \<noteq> [])"
  using assms
  by (auto simp: resolve_username_def lookup_username_def Let_def
           split: option.splits if_splits sum.splits)

lemma run_reaches_upload_call:
  assumes "UploadFile a \<in> set (fst (upload_to_huggingface w))"
  obtains tok t1 hf_username t2 commit_id es f where
    "environ w ''HF_TOKEN'' = Some tok" and "tok \<noteq> []"
    and "resolve_username w tok = (t1, Inr hf_username)"
    and "get_current_git_commit (git_rev_parse w) = (t2, Inr commit_id)"
    and "results_node w = Some (Directory es)" and "f \<in> set (files_to_upload (Directory es))"
    and "a = upload_call (hf_username @ ''/'' @ repo_name_of w) tok (commit_prefix_of commit_id) f"
proof -
  from assms obtain tok where tok: "environ w ''HF_TOKEN'' = Some tok" "tok \<noteq> []"
    and run: "upload_to_huggingface w = run_with_token w tok"
    by (auto simp: upload_to_huggingface_def split: option.splits if_splits)
  let ?ev = "UploadFile a"
  obtain t1 r1 where u: "resolve_username w tok = (t1, r1)" by (cases "resolve_username w tok")
  obtain t2 r2 where g: "get_current_git_commit (git_rev_parse w) = (t2, r2)"
    by (cases "get_current_git_commit (git_rev_parse w)")
  have n1: "?ev \<notin> set t1"
    using resolve_username_events [of ?ev w tok] u by auto
  have n2: "?ev \<notin> set t2"
    using git_commit_events [of ?ev "git_rev_parse w"] g by auto
  from assms run have mem: "?ev \<in> set (fst (run_with_token w tok))" by simp
  obtain hf_username where user: "r1 = Inr hf_username"
    using mem u n1 run_fails_in_resolve [of w tok t1] by (cases r1) auto
  obtain commit_id where cid: "r2 = Inr commit_id"
    using mem u g user n1 n2 run_fails_in_git [of w tok t1 hf_username t2] by (cases r2) auto
  let ?rid = "hf_username @ ''/'' @ repo_name_of w"
  obtain t3 r3 where c: "ensure_repo w ?rid tok = (t3, r3)" by (cases "ensure_repo w ?rid tok")
  obtain t4 r4 where up: "upload_results w ?rid tok commit_id = (t4, r4)"
    by (cases "upload_results w ?rid tok commit_id")
  have n3: "?ev \<notin> set t3"
    using ensure_repo_events [of ?ev w ?rid tok] c by auto
  have "fst (run_with_token w tok) = t1 @ t2 @ t3 \<or> fst (run_with_token w tok) = t1 @ t2 @ t3 @ t4"
    using run_fails_in_create [of w tok t1 hf_username t2 commit_id t3]
      run_reaches_upload [of w tok t1 hf_username t2 commit_id t3 _ t4 r4] u g user cid c up
    by (cases r3) auto
  with mem n1 n2 n3 have "?ev \<in> set t4" by auto
  then obtain es f where "results_node w = Some (Directory es)"
    and "f \<in> set (files_to_upload (Directory es))"
    and "a = upload_call ?rid tok (commit_prefix_of commit_id) f"
    using upload_results_events [of ?ev w ?rid tok commit_id] up by auto
  with tok u g user cid that show thesis by simp
qed

text \<open>
  C10. Every run has one repository identifier: each \<^verbatim>\<open>create_repo\<close> call and each
  \<^verbatim>\<open>upload_file\<close> call of the run targets it, with the repository type
  \<^verbatim>\<open>dataset\<close>. It is \<^verbatim>\<open><account>/<name>\<close>, where the account is the value of
  \<^verbatim>\<open>HF_USERNAME\<close> when that is set and not empty, and otherwise the name that
  \<^verbatim>\<open>whoami\<close> returns for the credential, and where the name is the value of
  \<^verbatim>\<open>HF_REPO_NAME\<close>, or \<^verbatim>\<open>longbench-results\<close> when that variable is unset.
\<close>

theorem one_repo_id_per_run:
  "\<exists>rid0.
     (\<forall>ev \<in> set (fst (upload_to_huggingface w)).
        (\<forall>rid rt pv tk. ev = CreateRepo rid rt pv tk \<longrightarrow> rid = rid0 \<and> rt = ''dataset'')
      \<and> (\<forall>a. ev = UploadFile a \<longrightarrow> repo_id a = rid0 \<and> repo_type a = ''dataset''))
   \<and> (\<forall>account.
        (environ w ''HF_USERNAME'' = Some account \<and> account \<noteq> []
         \<or> environ w ''HF_USERNAME'' \<in> {None, Some []}
           \<and> (\<exists>tok info. environ w ''HF_TOKEN'' = Some tok \<and> hub_whoami w tok = Inr info
                  \<and> info ''name'' = Some account \<and> account \<noteq> []))
        \<longrightarrow> rid0 = account @ ''/'' @
              (case environ w ''HF_REPO_NAME'' of None \<Rightarrow> ''longbench-results'' | Some n \<Rightarrow> n))"
proof -
  define resolved where "resolved account \<longleftrightarrow>
        (environ w ''HF_USERNAME'' = Some account \<and> account \<noteq> []
         \<or> environ w ''HF_USERNAME'' \<in> {None, Some []}
           \<and> (\<exists>tok info. environ w ''HF_TOKEN'' = Some tok \<and> hub_whoami w tok = Inr info
                  \<and> info ''name'' = Some account \<and> account \<noteq> []))" for account
  have name: "(case environ w ''HF_REPO_NAME'' of None \<Rightarrow> ''longbench-results'' | Some n \<Rightarrow> n)
              = repo_name_of w"
    by (simp add: repo_name_of_def)
  have uniq: "a = b" if "resolved a" and "resolved b" for a b
    using that unfolding resolved_def by auto
  have res: "resolved u" if "environ w ''HF_TOKEN'' = Some tok" and "resolve_username w tok = (t, Inr u)"
    for tok t u
    using resolve_username_ok [OF that(2)] that(1) unfolding resolved_def by auto
  have create: "\<exists>u. resolved u \<and> rid = u @ ''/'' @ repo_name_of w \<and> rt = ''dataset''"
    if "CreateRepo rid rt pv tk \<in> set (fst (upload_to_huggingface w))" for rid rt pv tk
    using that by (rule run_reaches_create) (use res in blast)
  have upload: "\<exists>u. resolved u \<and> repo_id a = u @ ''/'' @ repo_name_of w \<and> repo_type a = ''dataset''"
    if "UploadFile a \<in> set (fst (upload_to_huggingface w))" for a
    using that
  proof (rule run_reaches_upload_call)
    fix tok t1 hf_username t2 commit_id es f
    assume "environ w ''HF_TOKEN'' = Some tok" and "resolve_username w tok = (t1, Inr hf_username)"
      and "a = upload_call (hf_username @ ''/'' @ repo_name_of w) tok (commit_prefix_of commit_id) f"
    then show ?thesis
      using res by (auto simp: upload_call_def)
  qed
  show ?thesis
  proof (cases "\<exists>u. resolved u")
    case True
    then obtain u where u: "resolved u" ..
    have "\<forall>ev \<in> set (fst (upload_to_huggingface w)).
        (\<forall>rid rt pv tk. ev = CreateRepo rid rt pv tk \<longrightarrow> rid = u @ ''/'' @ repo_name_of w \<and> rt = ''dataset'')
      \<and> (\<forall>a. ev = UploadFile a \<longrightarrow> repo_id a = u @ ''/'' @ repo_name_of w \<and> repo_type a = ''dataset'')"
      using create upload uniq [OF u] by metis
    moreover have "\<forall>account. resolved account \<longrightarrow> u @ ''/'' @ repo_name_of w = account @ ''/'' @ repo_name_of w"
      using uniq [OF u] by auto
    ultimately show ?thesis
      unfolding name resolved_def [symmetric] by blast
  next
    case False
    with create upload have "\<forall>ev \<in> set (fst (upload_to_huggingface w)).
        (\<forall>rid rt pv tk. ev = CreateRepo rid rt pv tk \<longrightarrow> rid = [] \<and> rt = ''dataset'')
      \<and> (\<forall>a. ev = UploadFile a \<longrightarrow> repo_id a = [] \<and> repo_type a = ''dataset'')"
      by metis
    with False show ?thesis
      unfolding name resolved_def [symmetric] by blast
  qed
qed

theorem one_repo_id_per_run_witness:
  "\<exists>rid0.
     CreateRepo rid0 ''dataset'' False ''hf_secret'' \<in> set (fst (upload_to_huggingface example_world))
   \<and> map repo_id (uploads_of (fst (upload_to_huggingface example_world))) = [rid0, rid0]
   \<and> map repo_type (uploads_of (fst (upload_to_huggingface example_world))) = [''dataset'', ''dataset'']
   \<and> environ example_world ''HF_USERNAME'' = Some ''alice''
   \<and> environ example_world ''HF_REPO_NAME'' = None
   \<and> rid0 = ''alice/longbench-results''"
proof -
  from one_repo_id_per_run [of example_world] obtain rid0 where
    "\<forall>account.
        (environ example_world ''HF_USERNAME'' = Some account \<and> account \<noteq> []
         \<or> environ example_world ''HF_USERNAME'' \<in> {None, Some []}
           \<and> (\<exists>tok info. environ example_world ''HF_TOKEN'' = Some tok
                  \<and> hub_whoami example_world tok = Inr info
                  \<and> info ''name'' = Some account \<and> account \<noteq> []))
        \<longrightarrow> rid0 = account @ ''/'' @
              (case environ example_world ''HF_REPO_NAME'' of
                 None \<Rightarrow> ''longbench-results'' | Some n \<Rightarrow> n)"
    by blast
  from this [rule_format, of "''alice''"] have "rid0 = ''alice/longbench-results''"
    by (simp add: example_world_def)
  then show ?thesis
    by (simp add: example_run) (simp add: example_world_def)
qed


subsection \<open>The fallback commit message\<close>

text \<open>
  C7. Suppose the revision lookup returns \<^verbatim>\<open>None\<close>. Then the commit message of every
  upload call of the run is \<^verbatim>\<open>update - <path in the repository>\<close>. The lookup does not
  stop the run: when the credential is present, the account resolves, the repository is
  created or found, the results directory exists and each upload call of the loop
  returns, the run returns normally after one upload call per file, in the order of the
  file list.
\<close>

theorem missing_revision_uses_fallback:
  assumes "snd (get_current_git_commit (git_rev_parse w)) = Inr None"
  shows "(\<forall>a. UploadFile a \<in> set (fst (upload_to_huggingface w)) \<longrightarrow>
            commit_message a = ''update - '' @ path_in_repo a)
       \<and> (\<forall>tok u es.
            environ w ''HF_TOKEN'' = Some tok \<and> tok \<noteq> []
            \<and> snd (resolve_username w tok) = Inr u
            \<and> snd (ensure_repo w (u @ ''/'' @ repo_name_of w) tok) = Inr ()
            \<and> results_node w = Some (Directory es)
            \<and> (\<forall>f \<in> set (files_to_upload (Directory es)).
                  hub_upload_file w (upload_call (u @ ''/'' @ repo_name_of w) tok ''update'' f) = None)
            \<longrightarrow> snd (upload_to_huggingface w) = Inr ()
              \<and> uploads_of (fst (upload_to_huggingface w)) =
                  map (upload_call (u @ ''/'' @ repo_name_of w) tok ''update'')
                      (files_to_upload (Directory es)))"
proof (intro conjI allI impI)
  fix a
  assume "UploadFile a \<in> set (fst (upload_to_huggingface w))"
  then show "commit_message a = ''update - '' @ path_in_repo a"
  proof (rule run_reaches_upload_call)
    fix tok t1 hf_username t2 commit_id es f
    assume "get_current_git_commit (git_rev_parse w) = (t2, Inr commit_id)"
      and a: "a = upload_call (hf_username @ ''/'' @ repo_name_of w) tok (commit_prefix_of commit_id) f"
    with assms have "commit_id = None" by simp
    with a show ?thesis by (simp add: upload_call_def commit_prefix_of_def)
  qed
next
  fix tok u es
  let ?rid = "u @ ''/'' @ repo_name_of w"
  assume h: "environ w ''HF_TOKEN'' = Some tok \<and> tok \<noteq> []
            \<and> snd (resolve_username w tok) = Inr u
            \<and> snd (ensure_repo w ?rid tok) = Inr ()
            \<and> results_node w = Some (Directory es)
            \<and> (\<forall>f \<in> set (files_to_upload (Directory es)).
                  hub_upload_file w (upload_call ?rid tok ''update'' f) = None)"
  then have run: "upload_to_huggingface w = run_with_token w tok"
    by (simp add: upload_to_huggingface_def)
  from h obtain t1 where r: "resolve_username w tok = (t1, Inr u)"
    by (cases "resolve_username w tok") auto
  from assms obtain t2 where g: "get_current_git_commit (git_rev_parse w) = (t2, Inr None)"
    by (cases "get_current_git_commit (git_rev_parse w)") auto
  from h obtain t3 where c: "ensure_repo w ?rid tok = (t3, Inr ())"
    by (cases "ensure_repo w ?rid tok") auto
  from h have dir: "results_node w = Some (Directory es)" by simp
  have p: "commit_prefix_of None = ''update''" by (simp add: commit_prefix_of_def)
  from h have ok: "\<forall>f \<in> set (files_to_upload (Directory es)).
      hub_upload_file w (upload_call ?rid tok (commit_prefix_of None) f) = None"
    by (simp add: p)
  have fin: "snd (upload_results w ?rid tok None) = Inr ()"
    using upload_results_uploads(3) [OF dir ok] .
  then have ups: "uploads_of (fst (upload_results w ?rid tok None)) =
      map (upload_call ?rid tok ''update'') (files_to_upload (Directory es))"
    using upload_results_uploads(2) [OF dir, of ?rid tok None "()"] by (simp add: p)
  show "snd (upload_to_huggingface w) = Inr ()"
    using run_with_token_uploads(2) [OF r g c] fin run by simp
  show "uploads_of (fst (upload_to_huggingface w)) =
      map (upload_call ?rid tok ''update'') (files_to_upload (Directory es))"
    using run_with_token_uploads(1) [OF r g c] ups run by simp
qed

theorem missing_revision_uses_fallback_witness:
  "snd (get_current_git_commit (git_rev_parse no_git_world)) = Inr None
   \<and> snd (upload_to_huggingface no_git_world) = Inr ()
   \<and> uploads_of (fst (upload_to_huggingface no_git_world)) =
       map (upload_call ''alice/longbench-results'' ''hf_secret'' ''update'')
           [''results/a.txt'', ''results/sub/b.txt'']
   \<and> map commit_message (uploads_of (fst (upload_to_huggingface no_git_world))) =
       [''update - results/a.txt'', ''update - results/sub/b.txt'']"
proof -
  let ?es = "[(''a.txt'', RegularFile), (''sub'', Directory [(''b.txt'', RegularFile)])]"
  have g: "snd (get_current_git_commit (git_rev_parse no_git_world)) = Inr None"
    by (simp add: no_git_world_def example_world_def)
  have name: "repo_name_of no_git_world = ''longbench-results''"
    by (simp add: repo_name_of_def no_git_world_def example_world_def)
  have files: "files_to_upload (Directory ?es) = [''results/a.txt'', ''results/sub/b.txt'']"
    using files_two_files by (simp add: two_files_def)
  have h: "environ no_git_world ''HF_TOKEN'' = Some ''hf_secret'' \<and> ''hf_secret'' \<noteq> []
      \<and> snd (resolve_username no_git_world ''hf_secret'') = Inr ''alice''
      \<and> snd (ensure_repo no_git_world (''alice'' @ ''/'' @ repo_name_of no_git_world) ''hf_secret'')
          = Inr ()
      \<and> results_node no_git_world = Some (Directory ?es)
      \<and> (\<forall>f \<in> set (files_to_upload (Directory ?es)).
            hub_upload_file no_git_world
              (upload_call (''alice'' @ ''/'' @ repo_name_of no_git_world) ''hf_secret'' ''update'' f)
            = None)"
    by (simp add: no_git_world_def example_world_def resolve_username_def ensure_repo_def
          two_files_def)
  from missing_revision_uses_fallback [OF g, THEN conjunct2, rule_format, OF h]
  have "snd (upload_to_huggingface no_git_world) = Inr ()
      \<and> uploads_of (fst (upload_to_huggingface no_git_world)) =
          map (upload_call ''alice/longbench-results'' ''hf_secret'' ''update'')
              [''results/a.txt'', ''results/sub/b.txt'']"
    by (simp add: name files)
  with g show ?thesis
    by (simp add: upload_call_def relpath_a relpath_b)
qed


subsection \<open>The uploaded paths\<close>

lemma run_uploads_of_directory:
  assumes "results_node w = Some (Directory es)"
  shows "\<exists>rid tok p.
           prefix (uploads_of (fst (upload_to_huggingface w)))
                  (map (upload_call rid tok p) (files_to_upload (Directory es)))
         \<and> (snd (upload_to_huggingface w) = Inr () \<longrightarrow>
              uploads_of (fst (upload_to_huggingface w)) =
                map (upload_call rid tok p) (files_to_upload (Directory es)))"
proof (cases "\<exists>tok. environ w ''HF_TOKEN'' = Some tok \<and> tok \<noteq> []")
  case False
  then have "upload_to_huggingface w = ([], Inl (Exn ValueError ''HF_TOKEN not found in .env file''))"
    by (auto simp: upload_to_huggingface_def split: option.splits)
  then show ?thesis by simp
next
  case True
  then obtain tok where run: "upload_to_huggingface w = run_with_token w tok"
    by (auto simp: upload_to_huggingface_def)
  obtain t1 r1 where u: "resolve_username w tok = (t1, r1)" by (cases "resolve_username w tok")
  obtain t2 r2 where g: "get_current_git_commit (git_rev_parse w) = (t2, r2)"
    by (cases "get_current_git_commit (git_rev_parse w)")
  show ?thesis
  proof (cases "\<exists>hf_username commit_id t3.
            r1 = Inr hf_username \<and> r2 = Inr commit_id
          \<and> ensure_repo w (hf_username @ ''/'' @ repo_name_of w) tok = (t3, Inr ())")
    case True
    then obtain hf_username commit_id t3 where
      r: "resolve_username w tok = (t1, Inr hf_username)"
      and gg: "get_current_git_commit (git_rev_parse w) = (t2, Inr commit_id)"
      and c: "ensure_repo w (hf_username @ ''/'' @ repo_name_of w) tok = (t3, Inr ())"
      using u g by auto
    let ?rid = "hf_username @ ''/'' @ repo_name_of w"
    from run_with_token_uploads [OF r gg c] run
    have "uploads_of (fst (upload_to_huggingface w)) =
            uploads_of (fst (upload_results w ?rid tok commit_id))"
      and "snd (upload_to_huggingface w) = snd (upload_results w ?rid tok commit_id)"
      by simp_all
    with upload_results_uploads(1) [OF assms, of ?rid tok commit_id]
      upload_results_uploads(2) [OF assms, of ?rid tok commit_id "()"]
    show ?thesis by auto
  next
    case False
    have "uploads_of (fst (run_with_token w tok)) = [] \<and> (\<exists>e. snd (run_with_token w tok) = Inl e)"
    proof (cases r1)
      case (Inl e1)
      with u show ?thesis using run_with_token_no_uploads [of w tok e1] by simp
    next
      case user: (Inr hf_username)
      show ?thesis
      proof (cases r2)
        case (Inl e2)
        with g show ?thesis using run_with_token_no_uploads [of w tok _ e2] by simp
      next
        case (Inr commit_id)
        obtain t3 r3 where c: "ensure_repo w (hf_username @ ''/'' @ repo_name_of w) tok = (t3, r3)"
          by (cases "ensure_repo w (hf_username @ ''/'' @ repo_name_of w) tok")
        with False user Inr obtain e3 where "r3 = Inl e3" by (cases r3) auto
        with c u user show ?thesis using run_with_token_no_uploads [of w tok _ _ e3] by auto
      qed
    qed
    with run show ?thesis by auto
  qed
qed

text \<open>
  C3, as the code has it. For a results directory that holds exactly \<^verbatim>\<open>a.txt\<close> and
  \<^verbatim>\<open>sub/b.txt\<close> (in either listing order), the remote paths of the upload calls are
  among \<^verbatim>\<open>results/a.txt\<close> and \<^verbatim>\<open>results/sub/b.txt\<close>, none is used twice, each is the
  path of its file relative to the working directory, and a run that returns normally
  has used exactly these two.
\<close>

theorem two_files_remote_paths:
  assumes "results_node w = Some (Directory es)"
    and "es = [(''a.txt'', RegularFile), (''sub'', Directory [(''b.txt'', RegularFile)])]
         \<or> es = [(''sub'', Directory [(''b.txt'', RegularFile)]), (''a.txt'', RegularFile)]"
  shows "distinct (map path_in_repo (uploads_of (fst (upload_to_huggingface w))))
       \<and> set (map path_in_repo (uploads_of (fst (upload_to_huggingface w))))
           \<subseteq> {''results/a.txt'', ''results/sub/b.txt''}
       \<and> (\<forall>a \<in> set (uploads_of (fst (upload_to_huggingface w))).
             path_in_repo a = relpath (path_or_fileobj a))
       \<and> (snd (upload_to_huggingface w) = Inr () \<longrightarrow>
             set (map path_in_repo (uploads_of (fst (upload_to_huggingface w))))
               = {''results/a.txt'', ''results/sub/b.txt''})"
proof -
  from assms(2) have files: "files_to_upload (Directory es) = [''results/a.txt'', ''results/sub/b.txt'']"
    by (auto simp: files_to_upload_def glob_all_def)
  from run_uploads_of_directory [OF assms(1)] obtain rid tok p where
    pre: "prefix (uploads_of (fst (upload_to_huggingface w)))
            [upload_call rid tok p ''results/a.txt'', upload_call rid tok p ''results/sub/b.txt'']"
    and fin: "snd (upload_to_huggingface w) = Inr () \<Longrightarrow>
            uploads_of (fst (upload_to_huggingface w)) =
              [upload_call rid tok p ''results/a.txt'', upload_call rid tok p ''results/sub/b.txt'']"
    unfolding files by auto
  from pre consider
      "uploads_of (fst (upload_to_huggingface w)) = []"
    | "uploads_of (fst (upload_to_huggingface w)) = [upload_call rid tok p ''results/a.txt'']"
    | "uploads_of (fst (upload_to_huggingface w)) =
         [upload_call rid tok p ''results/a.txt'', upload_call rid tok p ''results/sub/b.txt'']"
    by (auto simp: prefix_Cons)
  then show ?thesis
  proof cases
    case 1
    with fin show ?thesis by auto
  next
    case 2
    with fin show ?thesis by (auto simp: upload_call_def relpath_a relpath_b)
  next
    case 3
    then show ?thesis by (auto simp: upload_call_def relpath_a relpath_b)
  qed
qed

theorem two_files_remote_paths_witness:
  "results_node example_world =
     Some (Directory [(''a.txt'', RegularFile), (''sub'', Directory [(''b.txt'', RegularFile)])])
   \<and> snd (upload_to_huggingface example_world) = Inr ()
   \<and> distinct (map path_in_repo (uploads_of (fst (upload_to_huggingface example_world))))
   \<and> set (map path_in_repo (uploads_of (fst (upload_to_huggingface example_world))))
       = {''results/a.txt'', ''results/sub/b.txt''}"
proof -
  have h: "results_node example_world =
     Some (Directory [(''a.txt'', RegularFile), (''sub'', Directory [(''b.txt'', RegularFile)])])"
    by (simp add: example_world_def two_files_def)
  have r: "snd (upload_to_huggingface example_world) = Inr ()"
    by (simp add: example_run)
  have es: "[(''a.txt'', RegularFile), (''sub'', Directory [(''b.txt'', RegularFile)])]
              = [(''a.txt'', RegularFile), (''sub'', Directory [(''b.txt'', RegularFile)])]
            \<or> [(''a.txt'', RegularFile), (''sub'', Directory [(''b.txt'', RegularFile)])]
              = [(''sub'', Directory [(''b.txt'', RegularFile)]), (''a.txt'', RegularFile)]"
    by simp
  note t = two_files_remote_paths [OF h es]
  from t have d: "distinct (map path_in_repo (uploads_of (fst (upload_to_huggingface example_world))))"
    by (rule conjunct1)
  from t r have s: "set (map path_in_repo (uploads_of (fst (upload_to_huggingface example_world))))
       = {''results/a.txt'', ''results/sub/b.txt''}"
    by blast
  from h r d s show ?thesis by (intro conjI)
qed

text \<open>
  The remote paths are not \<^verbatim>\<open>a.txt\<close> and \<^verbatim>\<open>sub/b.txt\<close>: the path relative to the
  working directory keeps the name of the results directory.
\<close>

theorem bare_relative_paths_counterexample:
  "results_node example_world =
     Some (Directory [(''a.txt'', RegularFile), (''sub'', Directory [(''b.txt'', RegularFile)])])
   \<and> map path_in_repo (uploads_of (fst (upload_to_huggingface example_world)))
       = [''results/a.txt'', ''results/sub/b.txt'']
   \<and> set (map path_in_repo (uploads_of (fst (upload_to_huggingface example_world))))
       \<noteq> {''a.txt'', ''sub/b.txt''}"
proof -
  have p: "map path_in_repo (uploads_of (fst (upload_to_huggingface example_world)))
       = [''results/a.txt'', ''results/sub/b.txt'']"
    by (simp add: example_run)
  have "''results/a.txt'' \<notin> {''a.txt'', ''sub/b.txt''}" by simp
  then have "set [''results/a.txt'', ''results/sub/b.txt''] \<noteq> {''a.txt'', ''sub/b.txt''}"
    by (metis list.set_intros(1))
  with p show ?thesis
    by (simp add: example_world_def two_files_def)
qed

end
